theory Spec2Isabelle
  imports Main "HOL-Library.Sublist" "HOL-Library.Log_Nat"
begin

section \<open>Python values, exceptions and the outside world\<close>

text \<open>
  The values that flow through \<^verbatim>\<open>sensor.py\<close>: what \<^verbatim>\<open>response.json()\<close> returns, what is
  put into a request payload and what a sensor holds as its state. A \<open>PFloat\<close> carries
  the exact rational value of a finite IEEE double. A \<open>PDict\<close> lists the items of a
  dict in insertion order (its keys are distinct). \<open>PObj\<close> is an opaque object
  (a module, a class) known only by its name.
\<close>

datatype pyval =
    PNone
  | PBool bool
  | PInt int
  | PFloat rat
  | PStr string
  | PList "pyval list"
  | PDict "(string \<times> pyval) list"
  | PObj string

text \<open>
  Exceptions. \<open>ConnectionError\<close> is the builtin class of that name (and its builtin
  subclasses): the module imports nothing called \<^verbatim>\<open>ConnectionError\<close>, so the name in its
  two \<^verbatim>\<open>except\<close> clauses is the builtin. \<open>RequestException c\<close> is the class \<open>c\<close> of
  \<^verbatim>\<open>requests.exceptions\<close>; these derive from \<^verbatim>\<open>RequestException(IOError)\<close>, none of them
  from the builtin \<^verbatim>\<open>ConnectionError\<close>. \<open>NotModelled\<close> marks the places where Python's
  behaviour lies outside this model; no theorem below depends on it.
\<close>

datatype exn =
    NameError string
  | TypeError
  | KeyError string
  | ValueError
  | AttributeError string
  | IndexError
  | OverflowError
  | ZeroDivisionError
  | ConnectionError
  | RequestException string
  | NotModelled

text \<open>
  What the transport does with one \<^verbatim>\<open>requests.post\<close>: it raises, or it delivers a response
  whose body parses as JSON, or one whose body does not.
\<close>

datatype reply = Raises exn | Body pyval | NotJSON

datatype response = Response "pyval option"

text \<open>
  The lines written by the module: \<open>Stdout_ERROR code message\<close> is
  \<^verbatim>\<open>print("ERROR: {}, {}".format(code, message))\<close>, \<open>Logger_refresh_failed\<close> is
  \<^verbatim>\<open>_LOGGER.error("Connection to Aria2c API failed")\<close> and \<open>Logger_setup_failed host port msg\<close>
  the \<^verbatim>\<open>_LOGGER.error\<close> call of \<^verbatim>\<open>setup_platform\<close>.
\<close>

datatype log_line =
    Stdout_ERROR pyval pyval
  | Logger_refresh_failed
  | Logger_setup_failed string int pyval

text \<open>
  The world outside the process: \<open>replies w n\<close> is what the transport does with the
  \<open>n\<close>-th call of \<^verbatim>\<open>requests.post\<close> (counted from 0), \<open>sent\<close> the requests posted so far
  (url and JSON body, oldest first), \<open>written\<close> the lines written so far.
\<close>

record world =
  replies :: "nat \<Rightarrow> reply"
  sent :: "(string \<times> pyval) list"
  written :: "log_line list"

definition requests_post :: "string \<Rightarrow> pyval \<Rightarrow> world \<Rightarrow> (exn + response) \<times> world" where
  "requests_post url data w =
     (let w' = w\<lparr>sent := sent w @ [(url, data)]\<rparr> in
      case replies w (length (sent w)) of
        Raises e \<Rightarrow> (Inl e, w')
      | Body j \<Rightarrow> (Inr (Response (Some j)), w')
      | NotJSON \<Rightarrow> (Inr (Response None), w'))"

definition response_json :: "response \<Rightarrow> exn + pyval" where
  "response_json r = (case r of Response None \<Rightarrow> Inl ValueError | Response (Some j) \<Rightarrow> Inr j)"

subsection \<open>Builtin operations\<close>

text \<open>Truth value testing, as \<^verbatim>\<open>if x:\<close> does it.\<close>

fun truthy :: "pyval \<Rightarrow> bool" where
  "truthy PNone = False"
| "truthy (PBool b) = b"
| "truthy (PInt n) = (n \<noteq> 0)"
| "truthy (PFloat r) = (r \<noteq> 0)"
| "truthy (PStr s) = (s \<noteq> [])"
| "truthy (PList xs) = (xs \<noteq> [])"
| "truthy (PDict kvs) = (kvs \<noteq> [])"
| "truthy (PObj n) = True"

text \<open>\<^verbatim>\<open>"literal" + x\<close>: concatenation with a string, a \<^verbatim>\<open>TypeError\<close> with anything else.\<close>

fun str_add :: "string \<Rightarrow> pyval \<Rightarrow> exn + pyval" where
  "str_add s (PStr t) = Inr (PStr (s @ t))"
| "str_add s v = Inl TypeError"

text \<open>\<^verbatim>\<open>x[k]\<close> with a string key \<open>k\<close>.\<close>

fun getitem :: "pyval \<Rightarrow> string \<Rightarrow> exn + pyval" where
  "getitem (PDict kvs) k = (case map_of kvs k of None \<Rightarrow> Inl (KeyError k) | Some v \<Rightarrow> Inr v)"
| "getitem (PObj n) k = Inl NotModelled"
| "getitem v k = Inl TypeError"

text \<open>\<^verbatim>\<open>x[i]\<close> with a non-negative integer \<open>i\<close>.\<close>

fun getindex :: "pyval \<Rightarrow> nat \<Rightarrow> exn + pyval" where
  "getindex (PList xs) i = (if i < length xs then Inr (xs ! i) else Inl IndexError)"
| "getindex (PStr s) i = (if i < length s then Inr (PStr [s ! i]) else Inl IndexError)"
| "getindex (PDict kvs) i = Inl NotModelled"
| "getindex (PObj n) i = Inl NotModelled"
| "getindex v i = Inl TypeError"

text \<open>\<^verbatim>\<open>k in x\<close> with a string \<open>k\<close>: a key of a dict, an element of a list, a substring of a string.\<close>

fun contains :: "string \<Rightarrow> pyval \<Rightarrow> exn + bool" where
  "contains k (PDict kvs) = Inr (k \<in> set (map fst kvs))"
| "contains k (PList xs) = Inr (PStr k \<in> set xs)"
| "contains k (PStr s) = Inr (sublist k s)"
| "contains k (PObj n) = Inl NotModelled"
| "contains k v = Inl TypeError"

subsection \<open>Numbers\<close>

text \<open>
  A decimal integer literal: an optional sign and one or more ASCII digits. These are the
  strings the daemon sends for its counters and speeds.
\<close>

definition is_digit :: "char \<Rightarrow> bool" where
  "is_digit c = (c \<in> set ''0123456789'')"

definition digit_val :: "char \<Rightarrow> nat" where
  "digit_val c = of_char c - 48"

definition nat_of_digits :: "string \<Rightarrow> nat" where
  "nat_of_digits s = foldl (\<lambda>a c. 10 * a + digit_val c) 0 s"

definition nat_literal :: "string \<Rightarrow> nat option" where
  "nat_literal s = (if s \<noteq> [] \<and> list_all is_digit s then Some (nat_of_digits s) else None)"

fun int_literal :: "string \<Rightarrow> int option" where
  "int_literal [] = None"
| "int_literal (c # s) =
     (if c = CHR ''-'' then map_option (\<lambda>n. - int n) (nat_literal s)
      else if c = CHR ''+'' then map_option int (nat_literal s)
      else map_option int (nat_literal (c # s)))"

text \<open>
  \<^verbatim>\<open>int(x)\<close>. The conversion of a string refuses more than 4300 digit characters, the
  sign not counted and leading zeros counted, with \<^verbatim>\<open>ValueError\<close> (the interpreter's default
  limit on integer string conversion). Python reads a few more strings as integers than
  \<open>int_literal\<close> does (surrounding whitespace, underscores between digits, non-ASCII
  digits) and raises \<^verbatim>\<open>ValueError\<close> on the rest; both are \<open>NotModelled\<close> here.
\<close>

definition max_str_digits :: nat where
  "max_str_digits = 4300"

fun py_int :: "pyval \<Rightarrow> exn + int" where
  "py_int (PInt n) = Inr n"
| "py_int (PBool b) = Inr (if b then 1 else 0)"
| "py_int (PFloat r) = Inr (if 0 \<le> r then \<lfloor>r\<rfloor> else \<lceil>r\<rceil>)"
| "py_int (PStr s) =
     (case int_literal s of
        None \<Rightarrow> Inl NotModelled
      | Some n \<Rightarrow> if max_str_digits < length (filter is_digit s) then Inl ValueError else Inr n)"
| "py_int (PObj n) = Inl NotModelled"
| "py_int v = Inl TypeError"

text \<open>
  Floats are IEEE doubles. A finite double is represented by its exact rational value,
  and every operation rounds its exact result to the nearest double, ties to the even
  significand: \<open>ilog2 x\<close> is the binary exponent of a positive \<open>x\<close>
  (\<open>2 powi ilog2 x \<le> x < 2 powi (ilog2 x + 1)\<close>), a double has 53 significant bits and
  the smallest spacing between doubles is \<open>2 powi - 1074\<close>.
\<close>

definition round_half_even :: "rat \<Rightarrow> int" where
  "round_half_even x =
     (let f = \<lfloor>x\<rfloor>; d = x - of_int f in
      if d < 1 / 2 then f else if 1 / 2 < d then f + 1 else if even f then f else f + 1)"

definition ilog2 :: "rat \<Rightarrow> int" where
  "ilog2 x =
     (let (p, q) = quotient_of x; d = bitlen p - bitlen q in if 2 powi d \<le> x then d else d - 1)"

definition nearest_double :: "rat \<Rightarrow> rat" where
  "nearest_double x =
     (if x = 0 then 0
      else let e = max (ilog2 \<bar>x\<bar> - 52) (- 1074)
           in of_int (round_half_even (x / 2 powi e)) * 2 powi e)"

definition max_double :: rat where
  "max_double = (2 ^ 53 - 1) * 2 ^ 971"

text \<open>\<open>None\<close>: the rounded value is beyond the largest finite double.\<close>

definition to_double :: "rat \<Rightarrow> rat option" where
  "to_double x = (let y = nearest_double x in if \<bar>y\<bar> \<le> max_double then Some y else None)"

text \<open>
  \<^verbatim>\<open>float(x)\<close>. An integer too large for a double raises \<^verbatim>\<open>OverflowError\<close>; a string of
  digits too large for a double gives \<^verbatim>\<open>inf\<close>, which is \<open>NotModelled\<close>, as are the
  strings that are not integer literals (fractions, exponents, \<^verbatim>\<open>inf\<close>, \<^verbatim>\<open>nan\<close>, and those on
  which Python raises \<^verbatim>\<open>ValueError\<close>).
\<close>

fun py_float :: "pyval \<Rightarrow> exn + rat" where
  "py_float (PFloat r) = Inr r"
| "py_float (PInt n) = (case to_double (of_int n) of None \<Rightarrow> Inl OverflowError | Some r \<Rightarrow> Inr r)"
| "py_float (PBool b) = Inr (if b then 1 else 0)"
| "py_float (PStr s) =
     (case int_literal s of
        None \<Rightarrow> Inl NotModelled
      | Some n \<Rightarrow> (case to_double (of_int n) of None \<Rightarrow> Inl NotModelled | Some r \<Rightarrow> Inr r))"
| "py_float (PObj n) = Inl NotModelled"
| "py_float v = Inl TypeError"

text \<open>\<^verbatim>\<open>x / n\<close> for a float \<open>x\<close> and an integer \<open>n\<close>: \<open>n\<close> is converted to a float first.\<close>

definition float_truediv_int :: "rat \<Rightarrow> int \<Rightarrow> exn + rat" where
  "float_truediv_int x n =
     (case to_double (of_int n) of
        None \<Rightarrow> Inl OverflowError
      | Some d \<Rightarrow>
          if d = 0 then Inl ZeroDivisionError
          else (case to_double (x / d) of None \<Rightarrow> Inl NotModelled | Some q \<Rightarrow> Inr q))"

text \<open>The float literal \<^verbatim>\<open>0.1\<close>.\<close>

definition float_0_1 :: rat where
  "float_0_1 = nearest_double (1 / 10)"

text \<open>
  \<^verbatim>\<open>round(x, ndigits)\<close> for a float \<open>x\<close> and \<open>ndigits \<ge> 0\<close>: the exact value of \<open>x\<close> is
  rounded to \<open>ndigits\<close> decimal places, ties to even, and the decimal is converted back to
  the nearest double.
\<close>

definition py_round :: "rat \<Rightarrow> nat \<Rightarrow> exn + rat" where
  "py_round x ndigits =
     (case to_double (of_int (round_half_even (x * 10 ^ ndigits)) / 10 ^ ndigits) of
        None \<Rightarrow> Inl OverflowError
      | Some r \<Rightarrow> Inr r)"

section \<open>The RPC client: class Aria2cHomeassistant\<close>

record Aria2cHomeassistant =
  host :: string
  port :: int
  token :: "string option"
  serverUrl :: string
  IDPREFIX :: string
  GET_VER :: string
  GET_STATUS :: string

text \<open>Decimal rendering, for \<^verbatim>\<open>"{port}".format(...)\<close> and for numbers sent as strings.\<close>

definition digit_char :: "nat \<Rightarrow> char" where
  "digit_char d = ''0123456789'' ! d"

function digits :: "nat \<Rightarrow> string" where
  "digits n = (if n < 10 then [digit_char n] else digits (n div 10) @ [digit_char (n mod 10)])"
  by pat_completeness auto
termination
  by (relation "measure id") auto

declare digits.simps [simp del]

definition str_of_int :: "int \<Rightarrow> string" where
  "str_of_int i = (if i < 0 then CHR ''-'' # digits (nat (- i)) else digits (nat i))"

definition init_Aria2cHomeassistant :: "string \<Rightarrow> int \<Rightarrow> string option \<Rightarrow> Aria2cHomeassistant" where
  "init_Aria2cHomeassistant h p t =
     \<lparr>host = h, port = p, token = t,
      serverUrl = ''http://'' @ h @ '':'' @ str_of_int p @ ''/jsonrpc'',
      IDPREFIX = ''pyaria2c'',
      GET_VER = ''aria2.getVersion'',
      GET_STATUS = ''aria2.getGlobalStat''\<rparr>"

text \<open>
  \<^verbatim>\<open>_genPayload(self, method, uris=None, options=None, cid=None)\<close>. Line 142 is evaluated
  first, then the dict display, whose \<^verbatim>\<open>"token:" + self.token\<close> raises when the token is
  \<^verbatim>\<open>None\<close>.
\<close>

definition genPayload :: "Aria2cHomeassistant \<Rightarrow> string \<Rightarrow> pyval \<Rightarrow> pyval \<Rightarrow> pyval \<Rightarrow> exn + pyval" where
  "genPayload self method uris options cid =
     (case (if truthy cid then str_add (IDPREFIX self) cid else Inr (PStr (IDPREFIX self))) of
        Inl e \<Rightarrow> Inl e
      | Inr cid' \<Rightarrow>
          (case token self of
             None \<Rightarrow> Inl TypeError
           | Some t \<Rightarrow>
               Inr (PDict [(''jsonrpc'', PStr ''2.0''),
                           (''id'', cid'),
                           (''method'', PStr method),
                           (''params'', PList ([PStr (''token:'' @ t)]
                                @ (if truthy uris then [uris] else [])
                                @ (if truthy options then [options] else [])))])))"

text \<open>\<^verbatim>\<open>self._genPayload(action, *params)\<close>: the list is spread over the three optional arguments.\<close>

fun genPayload_star :: "Aria2cHomeassistant \<Rightarrow> string \<Rightarrow> pyval list \<Rightarrow> exn + pyval" where
  "genPayload_star self action [] = genPayload self action PNone PNone PNone"
| "genPayload_star self action [u] = genPayload self action u PNone PNone"
| "genPayload_star self action [u, opt] = genPayload self action u opt PNone"
| "genPayload_star self action [u, opt, c] = genPayload self action u opt c"
| "genPayload_star self action ps = Inl TypeError"

definition defaultErrorHandler :: "pyval \<Rightarrow> pyval \<Rightarrow> world \<Rightarrow> (exn + pyval) \<times> world" where
  "defaultErrorHandler code message w =
     (Inr PNone, w\<lparr>written := written w @ [Stdout_ERROR code message]\<rparr>)"

text \<open>\<^verbatim>\<open>_post(self, action, params, onSuc, onFail=None)\<close>.\<close>

definition post ::
  "Aria2cHomeassistant \<Rightarrow> string \<Rightarrow> pyval list \<Rightarrow> (response \<Rightarrow> exn + pyval)
     \<Rightarrow> (pyval \<Rightarrow> pyval \<Rightarrow> world \<Rightarrow> (exn + pyval) \<times> world) option
     \<Rightarrow> world \<Rightarrow> (exn + pyval) \<times> world" where
  "post self action params onSuc onFail w =
     (let onFail' = (case onFail of None \<Rightarrow> defaultErrorHandler | Some h \<Rightarrow> h) in
      case genPayload_star self action params of
        Inl e \<Rightarrow> (Inl e, w)
      | Inr payloads \<Rightarrow>
          (case requests_post (serverUrl self) payloads w of
             (Inl e, w') \<Rightarrow> (Inl e, w')
           | (Inr resp, w') \<Rightarrow>
               (case response_json resp of
                  Inl e \<Rightarrow> (Inl e, w')
                | Inr result \<Rightarrow>
                    (case contains ''error'' result of
                       Inl e \<Rightarrow> (Inl e, w')
                     | Inr True \<Rightarrow>
                         (case getitem result ''error'' of
                            Inl e \<Rightarrow> (Inl e, w')
                          | Inr err \<Rightarrow>
                              (case getitem err ''code'' of
                                 Inl e \<Rightarrow> (Inl e, w')
                               | Inr code \<Rightarrow>
                                   (case getitem err ''message'' of
                                      Inl e \<Rightarrow> (Inl e, w')
                                    | Inr message \<Rightarrow> onFail' code message w')))
                     | Inr False \<Rightarrow> (onSuc resp, w')))))"

text \<open>The success handlers read \<^verbatim>\<open>response.json()['result'][k]\<close>.\<close>

definition result_field :: "response \<Rightarrow> string \<Rightarrow> exn + pyval" where
  "result_field response k =
     (case response_json response of
        Inl e \<Rightarrow> Inl e
      | Inr j \<Rightarrow> (case getitem j ''result'' of Inl e \<Rightarrow> Inl e | Inr r \<Rightarrow> getitem r k))"

definition getVer :: "Aria2cHomeassistant \<Rightarrow> world \<Rightarrow> (exn + pyval) \<times> world" where
  "getVer self = post self (GET_VER self) [] (\<lambda>response. result_field response ''version'') None"

definition getDownloadSpeed :: "Aria2cHomeassistant \<Rightarrow> world \<Rightarrow> (exn + pyval) \<times> world" where
  "getDownloadSpeed self =
     post self (GET_STATUS self) [] (\<lambda>response. result_field response ''downloadSpeed'') None"

definition getUpSpeed :: "Aria2cHomeassistant \<Rightarrow> world \<Rightarrow> (exn + pyval) \<times> world" where
  "getUpSpeed self =
     post self (GET_STATUS self) [] (\<lambda>response. result_field response ''uploadSpeed'') None"

definition getActive :: "Aria2cHomeassistant \<Rightarrow> world \<Rightarrow> (exn + pyval) \<times> world" where
  "getActive self =
     post self (GET_STATUS self) [] (\<lambda>response. result_field response ''numActive'') None"

definition getUnfinishedTasks :: "Aria2cHomeassistant \<Rightarrow> world \<Rightarrow> (exn + pyval) \<times> world" where
  "getUnfinishedTasks self =
     post self (GET_STATUS self) []
       (\<lambda>response.
          case result_field response ''numActive'' of
            Inl e \<Rightarrow> Inl e
          | Inr a \<Rightarrow>
              (case py_int a of
                 Inl e \<Rightarrow> Inl e
               | Inr na \<Rightarrow>
                   (case result_field response ''numWaiting'' of
                      Inl e \<Rightarrow> Inl e
                    | Inr b \<Rightarrow>
                        (case py_int b of Inl e \<Rightarrow> Inl e | Inr nb \<Rightarrow> Inr (PInt (na + nb))))))
       None"

section \<open>The table of sensor types\<close>

text \<open>
  Lines 27 to 32 are a dict display whose values are list displays of string literals and
  of the name \<^verbatim>\<open>Tasks\<close>. A display is evaluated left to right; a name is looked up in the
  namespace, and an unbound one raises \<^verbatim>\<open>NameError\<close>.
\<close>

datatype expr = Str string | Name string | ListDisplay "expr list" | DictDisplay "(string \<times> expr) list"

fun eval :: "(string \<rightharpoonup> pyval) \<Rightarrow> expr \<Rightarrow> exn + pyval"
  and eval_list :: "(string \<rightharpoonup> pyval) \<Rightarrow> expr list \<Rightarrow> exn + pyval list"
  and eval_items :: "(string \<rightharpoonup> pyval) \<Rightarrow> (string \<times> expr) list \<Rightarrow> exn + (string \<times> pyval) list" where
  "eval env (Str s) = Inr (PStr s)"
| "eval env (Name n) = (case env n of None \<Rightarrow> Inl (NameError n) | Some v \<Rightarrow> Inr v)"
| "eval env (ListDisplay es) = (case eval_list env es of Inl e \<Rightarrow> Inl e | Inr vs \<Rightarrow> Inr (PList vs))"
| "eval env (DictDisplay kes) = (case eval_items env kes of Inl e \<Rightarrow> Inl e | Inr kvs \<Rightarrow> Inr (PDict kvs))"
| "eval_list env [] = Inr []"
| "eval_list env (e # es) =
     (case eval env e of
        Inl x \<Rightarrow> Inl x
      | Inr v \<Rightarrow> (case eval_list env es of Inl x \<Rightarrow> Inl x | Inr vs \<Rightarrow> Inr (v # vs)))"
| "eval_items env [] = Inr []"
| "eval_items env ((k, e) # kes) =
     (case eval env e of
        Inl x \<Rightarrow> Inl x
      | Inr v \<Rightarrow> (case eval_items env kes of Inl x \<Rightarrow> Inl x | Inr kvs \<Rightarrow> Inr ((k, v) # kvs)))"

definition SENSOR_TYPES_display :: expr where
  "SENSOR_TYPES_display = DictDisplay
     [(''active'', ListDisplay [Str ''Active'', Name ''Tasks'']),
      (''download_speed'', ListDisplay [Str ''Down Speed'', Str ''MB/s'']),
      (''upload_speed'', ListDisplay [Str ''Up Speed'', Str ''MB/s'']),
      (''unfinished_tasks'', ListDisplay [Str ''Unfinished Tasks'', Name ''Tasks''])]"

text \<open>
  The names bound in the module when line 27 is reached: the imports of lines 6 to 19 and
  the assignments of lines 21 to 25. No builtin is called \<^verbatim>\<open>Tasks\<close>.
\<close>

definition module_namespace :: "string \<rightharpoonup> pyval" where
  "module_namespace = map_of
     [(''logging'', PObj ''logging''),
      (''timedelta'', PObj ''datetime.timedelta''),
      (''vol'', PObj ''voluptuous''),
      (''requests'', PObj ''requests''),
      (''json'', PObj ''json''),
      (''cv'', PObj ''homeassistant.helpers.config_validation''),
      (''PLATFORM_SCHEMA'', PObj ''homeassistant.components.sensor.PLATFORM_SCHEMA''),
      (''CONF_HOST'', PObj ''homeassistant.const.CONF_HOST''),
      (''CONF_TOKEN'', PObj ''homeassistant.const.CONF_TOKEN''),
      (''CONF_NAME'', PObj ''homeassistant.const.CONF_NAME''),
      (''CONF_PORT'', PObj ''homeassistant.const.CONF_PORT''),
      (''CONF_MONITORED_VARIABLES'', PObj ''homeassistant.const.CONF_MONITORED_VARIABLES''),
      (''STATE_IDLE'', PObj ''homeassistant.const.STATE_IDLE''),
      (''Entity'', PObj ''homeassistant.helpers.entity.Entity''),
      (''Throttle'', PObj ''homeassistant.util.Throttle''),
      (''_LOGGER'', PObj ''logging.Logger''),
      (''_THROTTLED_REFRESH'', PNone),
      (''DEFAULT_NAME'', PStr ''Aria2c''),
      (''DEFAULT_PORT'', PInt 6800)]"

text \<open>
  The table as it would be with \<^verbatim>\<open>Tasks\<close> bound to the value \<open>tasks\<close>; the sensors below
  take it in this form.
\<close>

definition SENSOR_TYPES :: "pyval \<Rightarrow> (string \<times> pyval) list" where
  "SENSOR_TYPES tasks =
     [(''active'', PList [PStr ''Active'', tasks]),
      (''download_speed'', PList [PStr ''Down Speed'', PStr ''MB/s'']),
      (''upload_speed'', PList [PStr ''Up Speed'', PStr ''MB/s'']),
      (''unfinished_tasks'', PList [PStr ''Unfinished Tasks'', tasks])]"

section \<open>The sensors: class Aria2cSensor\<close>

text \<open>
  The fields \<open>private_name\<close>, \<open>private_unit_of_measurement\<close> and \<open>private_state\<close> are
  \<^verbatim>\<open>self._name\<close>, \<^verbatim>\<open>self._unit_of_measurement\<close> and \<^verbatim>\<open>self._state\<close>. The client is an
  object or \<^verbatim>\<open>None\<close>; an object of this class is always true in \<^verbatim>\<open>if self.aria2c_client:\<close>.
\<close>

record Aria2cSensor =
  private_name :: pyval
  aria2c_client :: "Aria2cHomeassistant option"
  type :: string
  client_name :: string
  private_unit_of_measurement :: pyval
  private_state :: pyval

definition init_Aria2cSensor ::
  "pyval \<Rightarrow> string \<Rightarrow> Aria2cHomeassistant option \<Rightarrow> string \<Rightarrow> exn + Aria2cSensor" where
  "init_Aria2cSensor sensor_types sensor_type client cname =
     (case getitem sensor_types sensor_type of
        Inl e \<Rightarrow> Inl e
      | Inr entry \<Rightarrow>
          (case getindex entry 0 of
             Inl e \<Rightarrow> Inl e
           | Inr label \<Rightarrow>
               (case getindex entry 1 of
                  Inl e \<Rightarrow> Inl e
                | Inr unit \<Rightarrow>
                    Inr \<lparr>private_name = label, aria2c_client = client, type = sensor_type,
                         client_name = cname, private_unit_of_measurement = unit,
                         private_state = PNone\<rparr>)))"

definition state :: "Aria2cSensor \<Rightarrow> pyval" where
  "state self = private_state self"

definition unit_of_measurement :: "Aria2cSensor \<Rightarrow> pyval" where
  "unit_of_measurement self = private_unit_of_measurement self"

text \<open>
  The module global \<^verbatim>\<open>_THROTTLED_REFRESH\<close> holds \<^verbatim>\<open>None\<close> or a callable without arguments.
  The class \<^verbatim>\<open>Throttle\<close> that makes it comes from the \<^verbatim>\<open>homeassistant\<close> package; what the
  callable does is a parameter here.
\<close>

type_synonym callable = "world \<Rightarrow> (exn + pyval) \<times> world"

definition refresh_aria2c_data :: "callable option \<Rightarrow> world \<Rightarrow> (exn + unit) \<times> world" where
  "refresh_aria2c_data THROTTLED_REFRESH w =
     (case THROTTLED_REFRESH of
        None \<Rightarrow> (Inr (), w)
      | Some f \<Rightarrow>
          (case f w of
             (Inl e, w') \<Rightarrow>
               if e = ConnectionError
               then (Inr (), w'\<lparr>written := written w' @ [Logger_refresh_failed]\<rparr>)
               else (Inl e, w')
           | (Inr r, w') \<Rightarrow> (Inr (), w')))"

text \<open>Lines 119 to 121, and again lines 123 to 125: from the raw speed to the state.\<close>

definition speed_state :: "pyval \<Rightarrow> exn + pyval" where
  "speed_state raw =
     (case py_float raw of
        Inl e \<Rightarrow> Inl e
      | Inr x \<Rightarrow>
          (case float_truediv_int x 1024 of
             Inl e \<Rightarrow> Inl e
           | Inr y \<Rightarrow>
               (case float_truediv_int y 1024 of
                  Inl e \<Rightarrow> Inl e
                | Inr mb_spd \<Rightarrow>
                    (case py_round mb_spd (if mb_spd < float_0_1 then 2 else 1) of
                       Inl e \<Rightarrow> Inl e
                     | Inr r \<Rightarrow> Inr (PFloat r)))))"

text \<open>
  \<^verbatim>\<open>update(self)\<close>. The sensor is returned also when an exception leaves the method: it is
  the object as the exception found it.
\<close>

definition update ::
  "callable option \<Rightarrow> Aria2cSensor \<Rightarrow> world \<Rightarrow> (exn + unit) \<times> Aria2cSensor \<times> world" where
  "update THROTTLED_REFRESH self w =
     (case refresh_aria2c_data THROTTLED_REFRESH w of
        (Inl e, w1) \<Rightarrow> (Inl e, self, w1)
      | (Inr u, w1) \<Rightarrow>
          (case aria2c_client self of
             None \<Rightarrow> (Inr (), self, w1)
           | Some client \<Rightarrow>
               if type self = ''download_speed'' then
                 (case getDownloadSpeed client w1 of
                    (Inl e, w2) \<Rightarrow> (Inl e, self, w2)
                  | (Inr raw, w2) \<Rightarrow>
                      (case speed_state raw of
                         Inl e \<Rightarrow> (Inl e, self, w2)
                       | Inr s \<Rightarrow> (Inr (), self\<lparr>private_state := s\<rparr>, w2)))
               else if type self = ''upload_speed'' then
                 (case getUpSpeed client w1 of
                    (Inl e, w2) \<Rightarrow> (Inl e, self, w2)
                  | (Inr raw, w2) \<Rightarrow>
                      (case speed_state raw of
                         Inl e \<Rightarrow> (Inl e, self, w2)
                       | Inr s \<Rightarrow> (Inr (), self\<lparr>private_state := s\<rparr>, w2)))
               else if type self = ''active'' then
                 (case getActive client w1 of
                    (Inl e, w2) \<Rightarrow> (Inl e, self, w2)
                  | (Inr raw, w2) \<Rightarrow>
                      (case py_int raw of
                         Inl e \<Rightarrow> (Inl e, self, w2)
                       | Inr n \<Rightarrow> (Inr (), self\<lparr>private_state := PInt n\<rparr>, w2)))
               else if type self = ''unfinished_tasks'' then
                 (case getUnfinishedTasks client w1 of
                    (Inl e, w2) \<Rightarrow> (Inl e, self, w2)
                  | (Inr raw, w2) \<Rightarrow>
                      (case py_int raw of
                         Inl e \<Rightarrow> (Inl e, self, w2)
                       | Inr n \<Rightarrow> (Inr (), self\<lparr>private_state := PInt n\<rparr>, w2)))
               else (Inr (), self, w1)))"

section \<open>Setting up the platform\<close>

text \<open>The validated configuration: the schema of lines 34 to 41 has filled in the defaults.\<close>

record config =
  CONF_NAME :: string
  CONF_HOST :: string
  CONF_PORT :: int
  CONF_TOKEN :: "string option"
  CONF_MONITORED_VARIABLES :: "string list"

text \<open>
  What \<^verbatim>\<open>setup_platform\<close> changes: the module global \<^verbatim>\<open>_THROTTLED_REFRESH\<close> and the devices
  handed to \<^verbatim>\<open>add_devices\<close>.
\<close>

record platform =
  THROTTLED_REFRESH :: "callable option"
  devices :: "Aria2cSensor list"

text \<open>
  \<^verbatim>\<open>error.original\<close>: no exception class of this model has such an attribute; the
  exceptions of the builtin \<^verbatim>\<open>ConnectionError\<close> family carry \<^verbatim>\<open>args\<close>, \<^verbatim>\<open>errno\<close>,
  \<^verbatim>\<open>strerror\<close> and \<^verbatim>\<open>filename\<close>.
\<close>

definition getattr_original :: "exn \<Rightarrow> exn + pyval" where
  "getattr_original error = Inl (AttributeError ''original'')"

text \<open>Lines 70 to 72.\<close>

fun make_devices ::
  "pyval \<Rightarrow> string list \<Rightarrow> Aria2cHomeassistant \<Rightarrow> string \<Rightarrow> exn + Aria2cSensor list" where
  "make_devices sensor_types [] api cname = Inr []"
| "make_devices sensor_types (variable # variables) api cname =
     (case init_Aria2cSensor sensor_types variable (Some api) cname of
        Inl e \<Rightarrow> Inl e
      | Inr d \<Rightarrow>
          (case make_devices sensor_types variables api cname of
             Inl e \<Rightarrow> Inl e
           | Inr ds \<Rightarrow> Inr (d # ds)))"

text \<open>
  \<^verbatim>\<open>setup_platform(hass, config, add_devices)\<close>, with the class \<^verbatim>\<open>Throttle\<close> (applied to a
  number of seconds and to the method to throttle) and the value of \<^verbatim>\<open>SENSOR_TYPES\<close> as
  parameters. It returns \<^verbatim>\<open>False\<close>, or \<^verbatim>\<open>None\<close> at its end.
\<close>

definition setup_platform ::
  "(nat \<Rightarrow> callable \<Rightarrow> callable) \<Rightarrow> pyval \<Rightarrow> config \<Rightarrow> platform \<Rightarrow> world
     \<Rightarrow> (exn + pyval) \<times> platform \<times> world" where
  "setup_platform Throttle sensor_types config g w =
     (let name = CONF_NAME config;
          host = CONF_HOST config;
          port = CONF_PORT config;
          token = CONF_TOKEN config;
          aria2c_api = init_Aria2cHomeassistant host port token
      in case getVer aria2c_api w of
           (Inl error, w1) \<Rightarrow>
             if error = ConnectionError then
               (case getattr_original error of
                  Inl e \<Rightarrow> (Inl e, g, w1)
                | Inr original \<Rightarrow>
                    (Inr (PBool False), g,
                     w1\<lparr>written := written w1 @ [Logger_setup_failed host port original]\<rparr>))
             else (Inl error, g, w1)
         | (Inr ver, w1) \<Rightarrow>
             (let g1 = g\<lparr>THROTTLED_REFRESH := Some (Throttle 1 (getVer aria2c_api))\<rparr>
              in case make_devices sensor_types (CONF_MONITORED_VARIABLES config) aria2c_api name of
                   Inl e \<Rightarrow> (Inl e, g1, w1)
                 | Inr dev \<Rightarrow> (Inr PNone, g1\<lparr>devices := devices g1 @ dev\<rparr>, w1)))"

section \<open>The throttle\<close>




section \<open>Concrete inputs and the notions of the claims\<close>

text \<open>
  A client with a token, a world in which nothing has been sent or written yet and whose
  transport behaves as \<open>r\<close> says, and a sensor of type \<open>t\<close> with state \<open>s\<close>.
\<close>

definition example_api :: Aria2cHomeassistant where
  "example_api = init_Aria2cHomeassistant ''localhost'' 6800 (Some ''secret'')"

definition start_world :: "(nat \<Rightarrow> reply) \<Rightarrow> world" where
  "start_world r = \<lparr>replies = r, sent = [], written = []\<rparr>"

definition example_sensor :: "string \<Rightarrow> pyval \<Rightarrow> Aria2cSensor" where
  "example_sensor t s =
     \<lparr>private_name = PStr ''Sensor'', aria2c_client = Some example_api, type = t,
      client_name = ''Aria2c'', private_unit_of_measurement = PStr ''MB/s'',
      private_state = s\<rparr>"

text \<open>
  The body of a response is a JSON-RPC error: an object whose \<^verbatim>\<open>"error"\<close> entry is an object
  with a \<^verbatim>\<open>"code"\<close> and a \<^verbatim>\<open>"message"\<close>.
\<close>

fun rpc_error :: "pyval \<Rightarrow> bool" where
  "rpc_error (PDict kvs) =
     (case map_of kvs ''error'' of
        Some (PDict err) \<Rightarrow> map_of err ''code'' \<noteq> None \<and> map_of err ''message'' \<noteq> None
      | _ \<Rightarrow> False)"
| "rpc_error v = False"

text \<open>
  The state that C1 names for a raw speed \<open>v\<close>, its formula read as Python:
  \<^verbatim>\<open>round(v/1048576, 2) if v/1048576 < 0.1 else round(v/1048576, 1)\<close>, where \<^verbatim>\<open>v/1048576\<close> is
  the true division of two integers, which gives the double nearest to the quotient.
\<close>

definition reported_speed :: "nat \<Rightarrow> exn + rat" where
  "reported_speed v =
     (let mb = nearest_double (of_nat v / 1048576)
      in py_round mb (if mb < float_0_1 then 2 else 1))"

definition example_config :: config where
  "example_config =
     \<lparr>CONF_NAME = ''Aria2c'', CONF_HOST = ''localhost'', CONF_PORT = 6800,
      CONF_TOKEN = Some ''secret'', CONF_MONITORED_VARIABLES = [''download_speed'']\<rparr>"






section \<open>Properties\<close>

subsection \<open>The RPC call\<close>

lemma post_raises:
  assumes "genPayload_star self action params = Inr payload"
    and "replies w (length (sent w)) = Raises e"
  shows "post self action params onSuc onFail w = (Inl e, w\<lparr>sent := sent w @ [(serverUrl self, payload)]\<rparr>)"
  using assms by (simp add: post_def requests_post_def Let_def)

lemma post_success:
  assumes "genPayload_star self action params = Inr payload"
    and "replies w (length (sent w)) = Body (PDict kvs)"
    and "map_of kvs ''error'' = None"
  shows "post self action params onSuc onFail w =
           (onSuc (Response (Some (PDict kvs))), w\<lparr>sent := sent w @ [(serverUrl self, payload)]\<rparr>)"
proof -
  have "''error'' \<notin> fst ` set kvs"
    using assms(3) by (simp add: map_of_eq_None_iff)
  then show ?thesis
    using assms(1,2) by (simp add: post_def requests_post_def Let_def response_json_def)
qed

lemma post_error:
  assumes "genPayload_star self action params = Inr payload"
    and "replies w (length (sent w)) = Body (PDict kvs)"
    and "map_of kvs ''error'' = Some (PDict err)"
    and "map_of err ''code'' = Some code"
    and "map_of err ''message'' = Some message"
  shows "post self action params onSuc None w =
           (Inr PNone, w\<lparr>sent := sent w @ [(serverUrl self, payload)],
                          written := written w @ [Stdout_ERROR code message]\<rparr>)"
proof -
  have "''error'' \<in> fst ` set kvs"
    using assms(3) by (metis map_of_eq_None_iff option.distinct(1))
  then show ?thesis
    using assms by (simp add: post_def requests_post_def Let_def response_json_def defaultErrorHandler_def)
qed

lemma genPayload_star_nil:
  "token self = Some t \<Longrightarrow>
   genPayload_star self action [] =
     Inr (PDict [(''jsonrpc'', PStr ''2.0''), (''id'', PStr (IDPREFIX self)),
                 (''method'', PStr action), (''params'', PList [PStr (''token:'' @ t)])])"
  by (simp add: genPayload_def)

lemma refresh_None: "refresh_aria2c_data None w = (Inr (), w)"
  by (simp add: refresh_aria2c_data_def)

lemma update_frame:
  "private_name (fst (snd (update thr self w))) = private_name self \<and>
   type (fst (snd (update thr self w))) = type self \<and>
   client_name (fst (snd (update thr self w))) = client_name self \<and>
   private_unit_of_measurement (fst (snd (update thr self w))) = private_unit_of_measurement self \<and>
   aria2c_client (fst (snd (update thr self w))) = aria2c_client self"
  by (simp add: update_def split: prod.splits sum.splits option.splits)

lemma update_other_type:
  "type self \<notin> {''download_speed'', ''upload_speed'', ''active'', ''unfinished_tasks''} \<Longrightarrow>
   fst (snd (update thr self w)) = self"
  by (simp add: update_def split: prod.splits sum.splits option.splits)

subsection \<open>Decimal strings\<close>

lemma digit_char_cases:
  assumes "d < 10"
  shows "d = 0 \<or> d = 1 \<or> d = 2 \<or> d = 3 \<or> d = 4 \<or> d = 5 \<or> d = 6 \<or> d = 7 \<or> d = 8 \<or> d = (9::nat)"
  using assms by arith

lemma is_digit_digit_char: "d < 10 \<Longrightarrow> is_digit (digit_char d)"
  using digit_char_cases[of d] by (auto simp: is_digit_def digit_char_def)

lemma digit_val_digit_char: "d < 10 \<Longrightarrow> digit_val (digit_char d) = d"
  using digit_char_cases[of d] by (auto simp: digit_val_def digit_char_def)

lemma digit_char_not_sign: "d < 10 \<Longrightarrow> digit_char d \<noteq> CHR ''-'' \<and> digit_char d \<noteq> CHR ''+''"
  using digit_char_cases[of d] by (auto simp: digit_char_def)

lemma nat_of_digits_snoc: "nat_of_digits (s @ [c]) = 10 * nat_of_digits s + digit_val c"
  by (simp add: nat_of_digits_def)

lemma digits_props:
  "digits n \<noteq> [] \<and> list_all is_digit (digits n) \<and> nat_of_digits (digits n) = n
     \<and> hd (digits n) \<noteq> CHR ''-'' \<and> hd (digits n) \<noteq> CHR ''+''"
proof (induction n rule: digits.induct)
  case (1 n)
  show ?case
  proof (cases "n < 10")
    case True
    then have "digits n = [digit_char n]"
      by (subst digits.simps) simp
    with True show ?thesis
      using is_digit_digit_char[of n] digit_val_digit_char[of n] digit_char_not_sign[of n]
      by (simp add: nat_of_digits_def)
  next
    case False
    have m: "n mod 10 < 10" by simp
    from False 1 have IH: "digits (n div 10) \<noteq> [] \<and> list_all is_digit (digits (n div 10))
        \<and> nat_of_digits (digits (n div 10)) = n div 10
        \<and> hd (digits (n div 10)) \<noteq> CHR ''-'' \<and> hd (digits (n div 10)) \<noteq> CHR ''+''"
      by simp
    have eq: "digits n = digits (n div 10) @ [digit_char (n mod 10)]"
      using False by (subst digits.simps) simp
    show ?thesis
      using IH is_digit_digit_char[OF m] digit_val_digit_char[OF m]
      by (simp add: eq nat_of_digits_snoc)
  qed
qed

lemma int_literal_digits: "int_literal (digits n) = Some (int n)"
proof -
  obtain c s where cs: "digits n = c # s"
    using digits_props[of n] by (cases "digits n") auto
  have "c \<noteq> CHR ''-''" "c \<noteq> CHR ''+''"
    using digits_props[of n] cs by auto
  moreover have "nat_literal (c # s) = Some n"
    using digits_props[of n] cs by (simp add: nat_literal_def)
  ultimately show ?thesis
    by (simp add: cs)
qed

lemma filter_digits: "filter is_digit (digits n) = digits n"
  using digits_props[of n] by (simp add: list_all_iff filter_id_conv)

lemma length_digits: "0 < k \<Longrightarrow> n < 10 ^ k \<Longrightarrow> length (digits n) \<le> k"
proof (induction n arbitrary: k rule: digits.induct)
  case (1 n)
  show ?case
  proof (cases "n < 10")
    case True
    then have "digits n = [digit_char n]"
      by (subst digits.simps) simp
    with "1.prems"(1) show ?thesis by simp
  next
    case False
    have eq: "digits n = digits (n div 10) @ [digit_char (n mod 10)]"
      using False by (subst digits.simps) simp
    obtain j where k: "k = Suc j"
      using "1.prems"(1) by (cases k) simp_all
    have j: "0 < j"
    proof (rule ccontr)
      assume "\<not> 0 < j"
      with k "1.prems"(2) False show False by simp
    qed
    have "n div 10 < 10 ^ j"
      using "1.prems"(2) k by (simp add: less_mult_imp_div_less)
    with False j have "length (digits (n div 10)) \<le> j"
      by (intro "1.IH") simp_all
    then show ?thesis by (simp add: eq k)
  qed
qed

lemma py_int_count:
  assumes "m < 10 ^ max_str_digits"
    and "a = PInt (int m) \<or> a = PStr (digits m)"
  shows "py_int a = Inr (int m)"
proof -
  have "0 < max_str_digits"
    by (simp add: max_str_digits_def)
  then have "length (digits m) \<le> max_str_digits"
    using assms(1) by (rule length_digits)
  then show ?thesis
    using assms(2) by (auto simp: int_literal_digits filter_digits)
qed

text \<open>
  C2, as amended. When the global-stat response carries \<^verbatim>\<open>numActive\<close> = \<open>m\<close> and
  \<^verbatim>\<open>numWaiting\<close> = \<open>n\<close>, each of at most 4300 decimal digits and given as an integer or as
  the string of its decimal digits, \<^verbatim>\<open>getUnfinishedTasks\<close> returns the integer \<open>m + n\<close>.
\<close>

theorem getUnfinishedTasks_sum:
  assumes "token self = Some t"
    and "replies w (length (sent w)) = Body (PDict kvs)"
    and "map_of kvs ''error'' = None"
    and "map_of kvs ''result'' = Some (PDict res)"
    and "map_of res ''numActive'' = Some a"
    and "map_of res ''numWaiting'' = Some b"
    and "a = PInt (int m) \<or> a = PStr (digits m)"
    and "b = PInt (int n) \<or> b = PStr (digits n)"
    and "m < 10 ^ max_str_digits"
    and "n < 10 ^ max_str_digits"
  shows "fst (getUnfinishedTasks self w) = Inr (PInt (int m + int n))"
proof -
  have "fst (getUnfinishedTasks self w) =
        (case result_field (Response (Some (PDict kvs))) ''numActive'' of
            Inl e \<Rightarrow> Inl e
          | Inr a \<Rightarrow>
              (case py_int a of
                 Inl e \<Rightarrow> Inl e
               | Inr na \<Rightarrow>
                   (case result_field (Response (Some (PDict kvs))) ''numWaiting'' of
                      Inl e \<Rightarrow> Inl e
                    | Inr b \<Rightarrow>
                        (case py_int b of Inl e \<Rightarrow> Inl e | Inr nb \<Rightarrow> Inr (PInt (na + nb))))))"
    unfolding getUnfinishedTasks_def
    using post_success[OF genPayload_star_nil[OF assms(1)] assms(2) assms(3)] by simp
  also have "\<dots> = Inr (PInt (int m + int n))"
    using assms(4,5,6) py_int_count[OF assms(9,7)] py_int_count[OF assms(10,8)]
    by (simp add: result_field_def response_json_def)
  finally show ?thesis .
qed

lemma token_example_api: "token example_api = Some ''secret''"
  by (simp add: example_api_def init_Aria2cHomeassistant_def)

lemma digits_3: "digits 3 = ''3''"
  by (subst digits.simps) (simp add: digit_char_def)

theorem getUnfinishedTasks_sum_witness:
  "fst (getUnfinishedTasks example_api
          (start_world (\<lambda>n. Body (PDict [(''result'',
              PDict [(''numActive'', PStr ''3''), (''numWaiting'', PInt 4)])]))))
     = Inr (PInt 7)"
proof -
  let ?res = "[(''numActive'', PStr ''3''), (''numWaiting'', PInt 4)]"
  let ?kvs = "[(''result'', PDict ?res)]"
  let ?w = "start_world (\<lambda>n. Body (PDict ?kvs))"
  have h2: "replies ?w (length (sent ?w)) = Body (PDict ?kvs)"
    by (simp add: start_world_def)
  have h3: "map_of ?kvs ''error'' = None" by simp
  have h4: "map_of ?kvs ''result'' = Some (PDict ?res)" by simp
  have h5: "map_of ?res ''numActive'' = Some (PStr ''3'')" by simp
  have h6: "map_of ?res ''numWaiting'' = Some (PInt 4)" by simp
  have h7: "PStr ''3'' = PInt (int 3) \<or> PStr ''3'' = PStr (digits 3)"
    by (simp add: digits_3)
  have h8: "PInt 4 = PInt (int 4) \<or> PInt 4 = PStr (digits 4)" by simp
  have "(3::nat) < 10 ^ 1" "(4::nat) < 10 ^ 1" by simp_all
  moreover have "(10::nat) ^ 1 \<le> 10 ^ max_str_digits"
    by (rule power_increasing) (simp_all add: max_str_digits_def)
  ultimately have h9: "(3::nat) < 10 ^ max_str_digits" and h10: "(4::nat) < 10 ^ max_str_digits"
    by linarith+
  show ?thesis
    using getUnfinishedTasks_sum[OF token_example_api h2 h3 h4 h5 h6 h7 h8 h9 h10] by simp
qed

text \<open>
  C2 as stated fails for a count of more than 4300 digits sent as a string: \<^verbatim>\<open>int\<close> raises
  \<^verbatim>\<open>ValueError\<close>, and so does \<^verbatim>\<open>getUnfinishedTasks\<close>.
\<close>

lemma int_literal_ones:
  "int_literal (replicate (Suc k) CHR ''1'') = Some (int (nat_of_digits (replicate (Suc k) CHR ''1'')))"
proof -
  have "list_all is_digit (CHR ''1'' # replicate k CHR ''1'')"
    by (simp add: list_all_iff is_digit_def)
  then show ?thesis
    by (simp add: nat_literal_def)
qed

lemma py_int_ones:
  "max_str_digits < Suc k \<Longrightarrow> py_int (PStr (replicate (Suc k) CHR ''1'')) = Inl ValueError"
proof -
  assume a: "max_str_digits < Suc k"
  have "filter is_digit (replicate (Suc k) CHR ''1'') = replicate (Suc k) CHR ''1''"
    by (simp add: is_digit_def)
  then have "length (filter is_digit (replicate (Suc k) CHR ''1'')) = Suc k"
    by (simp only: length_replicate)
  with a show ?thesis
    by (simp only: py_int.simps int_literal_ones option.case if_True)
qed

theorem getUnfinishedTasks_long_string_counterexample:
  "fst (getUnfinishedTasks example_api
          (start_world (\<lambda>n. Body (PDict [(''result'',
              PDict [(''numActive'', PStr (replicate (Suc 4300) CHR ''1'')),
                     (''numWaiting'', PStr ''0'')])]))))
     = Inl ValueError"
proof -
  let ?a = "PStr (replicate (Suc 4300) CHR ''1'')"
  let ?res = "[(''numActive'', ?a), (''numWaiting'', PStr ''0'')]"
  let ?kvs = "[(''result'', PDict ?res)]"
  let ?w = "start_world (\<lambda>n. Body (PDict ?kvs))"
  have h2: "replies ?w (length (sent ?w)) = Body (PDict ?kvs)"
    by (simp only: start_world_def world.simps list.size)
  have h3: "map_of ?kvs ''error'' = None" by (simp del: replicate.simps)
  have r: "result_field (Response (Some (PDict ?kvs))) ''numActive'' = Inr ?a"
    by (simp add: result_field_def response_json_def del: replicate.simps)
  have p: "py_int ?a = Inl ValueError"
    by (rule py_int_ones) (simp add: max_str_digits_def)
  have "fst (getUnfinishedTasks example_api ?w) =
        (case result_field (Response (Some (PDict ?kvs))) ''numActive'' of
            Inl e \<Rightarrow> Inl e
          | Inr a \<Rightarrow>
              (case py_int a of
                 Inl e \<Rightarrow> Inl e
               | Inr na \<Rightarrow>
                   (case result_field (Response (Some (PDict ?kvs))) ''numWaiting'' of
                      Inl e \<Rightarrow> Inl e
                    | Inr b \<Rightarrow>
                        (case py_int b of Inl e \<Rightarrow> Inl e | Inr nb \<Rightarrow> Inr (PInt (na + nb))))))"
    unfolding getUnfinishedTasks_def
    by (simp only: post_success[OF genPayload_star_nil[OF token_example_api] h2 h3] fst_conv)
  then show ?thesis
    by (simp only: r p sum.case)
qed

text \<open>
  C10. While the global \<^verbatim>\<open>_THROTTLED_REFRESH\<close> is \<^verbatim>\<open>None\<close>, the refresh step returns without
  raising and leaves the world as it is (nothing sent, nothing written), and the update
  is the one that follows a refresh that returned without touching the world.
\<close>

theorem refresh_uninitialised_noop:
  "refresh_aria2c_data None w = (Inr (), w) \<and>
   update None self w = update (Some (\<lambda>w'. (Inr r, w'))) self w"
  by (simp add: refresh_aria2c_data_def update_def)

text \<open>
  C9. An update of a sensor whose type is none of the four keys leaves the cached state
  unchanged, and every update leaves name, type, client name, unit and client unchanged.
\<close>

theorem update_frame_effect:
  "(type self \<notin> {''download_speed'', ''upload_speed'', ''active'', ''unfinished_tasks''}
      \<longrightarrow> private_state (fst (snd (update thr self w))) = private_state self) \<and>
   private_name (fst (snd (update thr self w))) = private_name self \<and>
   type (fst (snd (update thr self w))) = type self \<and>
   client_name (fst (snd (update thr self w))) = client_name self \<and>
   private_unit_of_measurement (fst (snd (update thr self w))) = private_unit_of_measurement self \<and>
   aria2c_client (fst (snd (update thr self w))) = aria2c_client self"
  using update_frame[of thr self w] update_other_type[of self thr w] by simp

theorem update_frame_effect_witness:
  "type (example_sensor ''progress'' (PInt 5))
       \<notin> {''download_speed'', ''upload_speed'', ''active'', ''unfinished_tasks''} \<and>
   private_state (fst (snd (update None (example_sensor ''progress'' (PInt 5))
       (start_world (\<lambda>n. Body (PDict [(''result'', PDict [(''numActive'', PStr ''3'')])]))))))
     = PInt 5"
proof -
  have h: "type (example_sensor ''progress'' (PInt 5))
       \<notin> {''download_speed'', ''upload_speed'', ''active'', ''unfinished_tasks''}"
    by (simp add: example_sensor_def)
  have s: "private_state (example_sensor ''progress'' (PInt 5)) = PInt 5"
    by (simp add: example_sensor_def)
  from update_frame_effect[of "example_sensor ''progress'' (PInt 5)" None
      "start_world (\<lambda>n. Body (PDict [(''result'', PDict [(''numActive'', PStr ''3'')])]))"]
  show ?thesis using h s by simp
qed




subsection \<open>Failing calls\<close>

lemma rpc_error_elim:
  assumes "rpc_error j"
  obtains kvs err code message where "j = PDict kvs" "map_of kvs ''error'' = Some (PDict err)"
    "map_of err ''code'' = Some code" "map_of err ''message'' = Some message"
proof (cases j)
  case (PDict kvs)
  with assms obtain v where v: "map_of kvs ''error'' = Some v"
    by (cases "map_of kvs ''error''") auto
  with assms PDict obtain err where err: "v = PDict err"
    by (cases v) auto
  with assms PDict v obtain code message where
    "map_of err ''code'' = Some code" "map_of err ''message'' = Some message"
    by auto
  with PDict v err that show ?thesis by blast
qed (use assms in auto)

lemma post_fails:
  assumes "genPayload_star self action params = Inr payload"
    and "(\<exists>e. replies w (length (sent w)) = Raises e)
         \<or> (\<exists>j. replies w (length (sent w)) = Body j \<and> rpc_error j)"
  shows "fst (post self action params onSuc None w) =
           (case replies w (length (sent w)) of Raises e \<Rightarrow> Inl e | _ \<Rightarrow> Inr PNone)"
  using assms(2)
proof (elim disjE exE conjE)
  fix e assume "replies w (length (sent w)) = Raises e"
  then show ?thesis using post_raises[OF assms(1)] by simp
next
  fix j assume r: "replies w (length (sent w)) = Body j" and "rpc_error j"
  then obtain kvs err code message where "j = PDict kvs" "map_of kvs ''error'' = Some (PDict err)"
    "map_of err ''code'' = Some code" "map_of err ''message'' = Some message"
    by (auto elim: rpc_error_elim)
  then show ?thesis using post_error[OF assms(1)] r by simp
qed

lemma speed_state_None: "speed_state PNone = Inl TypeError"
  by (simp add: speed_state_def)

lemma update_after_getter:
  assumes "refresh_aria2c_data thr w = (Inr (), w1)"
    and "aria2c_client self = Some client"
    and "type self \<in> {''download_speed'', ''upload_speed'', ''active'', ''unfinished_tasks''}"
    and "getDownloadSpeed client w1 = (X, a)"
    and "getUpSpeed client w1 = (X, b)"
    and "getActive client w1 = (X, c)"
    and "getUnfinishedTasks client w1 = (X, d)"
    and "(\<exists>e. X = Inl e) \<or> X = Inr PNone"
  shows "fst (update thr self w) = Inl (case X of Inl e \<Rightarrow> e | Inr v \<Rightarrow> TypeError)
         \<and> fst (snd (update thr self w)) = self"
proof -
  consider "type self = ''download_speed''" | "type self = ''upload_speed''"
    | "type self = ''active''" | "type self = ''unfinished_tasks''"
    using assms(3) by blast
  then show ?thesis
  proof cases
    case 1
    with assms(8) show ?thesis
      by (elim disjE exE) (simp_all add: update_def assms(1,2,4) speed_state_None)
  next
    case 2
    with assms(8) show ?thesis
      by (elim disjE exE) (simp_all add: update_def assms(1,2,5) speed_state_None)
  next
    case 3
    with assms(8) show ?thesis
      by (elim disjE exE) (simp_all add: update_def assms(1,2,6))
  next
    case 4
    with assms(8) show ?thesis
      by (elim disjE exE) (simp_all add: update_def assms(1,2,7))
  qed
qed

text \<open>
  C4. What the code does where the claim has the update return: take a sensor of one of
  the four types, with a client that has a token, and a poll cycle in which the refresh
  step returns and the metric call then fails (the transport raises, or the daemon answers
  with a JSON-RPC error). The sensor, its cached state included, is as before, but the
  update raises: the exception of the transport, or \<^verbatim>\<open>TypeError\<close> when \<^verbatim>\<open>float\<close> or \<^verbatim>\<open>int\<close>
  meets the \<^verbatim>\<open>None\<close> that the failure handler returned in order not to raise.
\<close>

theorem update_metric_call_fails:
  assumes "refresh_aria2c_data thr w = (Inr (), w1)"
    and "aria2c_client self = Some client"
    and "token client = Some t"
    and "type self \<in> {''download_speed'', ''upload_speed'', ''active'', ''unfinished_tasks''}"
    and "(\<exists>e. replies w1 (length (sent w1)) = Raises e)
         \<or> (\<exists>j. replies w1 (length (sent w1)) = Body j \<and> rpc_error j)"
  shows "fst (update thr self w) =
           Inl (case replies w1 (length (sent w1)) of Raises e \<Rightarrow> e | _ \<Rightarrow> TypeError)
         \<and> fst (snd (update thr self w)) = self"
proof -
  let ?X = "case replies w1 (length (sent w1)) of Raises e \<Rightarrow> Inl e | _ \<Rightarrow> Inr PNone"
  note pf = post_fails[OF genPayload_star_nil[OF assms(3)] assms(5)]
  have g1: "getDownloadSpeed client w1 = (?X, snd (getDownloadSpeed client w1))"
    unfolding getDownloadSpeed_def by (rule prod_eqI) (simp_all add: pf)
  have g2: "getUpSpeed client w1 = (?X, snd (getUpSpeed client w1))"
    unfolding getUpSpeed_def by (rule prod_eqI) (simp_all add: pf)
  have g3: "getActive client w1 = (?X, snd (getActive client w1))"
    unfolding getActive_def by (rule prod_eqI) (simp_all add: pf)
  have g4: "getUnfinishedTasks client w1 = (?X, snd (getUnfinishedTasks client w1))"
    unfolding getUnfinishedTasks_def by (rule prod_eqI) (simp_all add: pf)
  have X: "(\<exists>e. ?X = Inl e) \<or> ?X = Inr PNone"
    using assms(5) by auto
  have c: "(case ?X of Inl e \<Rightarrow> e | Inr v \<Rightarrow> TypeError) =
           (case replies w1 (length (sent w1)) of Raises e \<Rightarrow> e | _ \<Rightarrow> TypeError)"
    by (cases "replies w1 (length (sent w1))") simp_all
  from update_after_getter[OF assms(1,2,4) g1 g2 g3 g4 X] c show ?thesis by simp
qed

theorem update_metric_call_fails_witness:
  "fst (update None (example_sensor ''download_speed'' (PFloat 2))
         (start_world (\<lambda>n. Raises (RequestException ''ConnectionError''))))
     = Inl (RequestException ''ConnectionError'') \<and>
   fst (snd (update None (example_sensor ''download_speed'' (PFloat 2))
         (start_world (\<lambda>n. Raises (RequestException ''ConnectionError'')))))
     = example_sensor ''download_speed'' (PFloat 2)"
proof -
  let ?w = "start_world (\<lambda>n. Raises (RequestException ''ConnectionError''))"
  let ?s = "example_sensor ''download_speed'' (PFloat 2)"
  have h1: "refresh_aria2c_data None ?w = (Inr (), ?w)"
    by (simp add: refresh_aria2c_data_def)
  have h2: "aria2c_client ?s = Some example_api"
    by (simp add: example_sensor_def)
  have h4: "type ?s \<in> {''download_speed'', ''upload_speed'', ''active'', ''unfinished_tasks''}"
    by (simp add: example_sensor_def)
  have h5: "(\<exists>e. replies ?w (length (sent ?w)) = Raises e)
         \<or> (\<exists>j. replies ?w (length (sent ?w)) = Body j \<and> rpc_error j)"
    by (simp add: start_world_def)
  have r: "replies ?w (length (sent ?w)) = Raises (RequestException ''ConnectionError'')"
    by (simp add: start_world_def)
  show ?thesis
    using update_metric_call_fails[OF h1 h2 token_example_api h4 h5] by (simp add: r)
qed

text \<open>
  The failing input of C4 evaluated: on a JSON-RPC error the update of an \<^verbatim>\<open>'active'\<close>
  sensor raises \<^verbatim>\<open>TypeError\<close>.
\<close>

theorem update_rpc_error_counterexample:
  "rpc_error (PDict [(''error'', PDict [(''code'', PInt 1), (''message'', PStr ''Unauthorized'')])]) \<and>
   fst (update None (example_sensor ''active'' (PInt 5))
         (start_world (\<lambda>n. Body (PDict [(''error'',
             PDict [(''code'', PInt 1), (''message'', PStr ''Unauthorized'')])]))))
     = Inl TypeError"
  by (simp add: update_def refresh_aria2c_data_def example_sensor_def getActive_def post_def
      example_api_def init_Aria2cHomeassistant_def genPayload_def requests_post_def
      start_world_def response_json_def defaultErrorHandler_def Let_def)

lemma getVer_raises:
  assumes "token self = Some t" and "replies w (length (sent w)) = Raises e"
  shows "getVer self w =
     (Inl e, w\<lparr>sent := sent w @ [(serverUrl self,
         PDict [(''jsonrpc'', PStr ''2.0''), (''id'', PStr (IDPREFIX self)),
                (''method'', PStr (GET_VER self)), (''params'', PList [PStr (''token:'' @ t)])])]\<rparr>)"
  unfolding getVer_def
  by (rule post_raises[OF genPayload_star_nil[OF assms(1)] assms(2)])

text \<open>
  C6. When the transport raises during the probe of \<^verbatim>\<open>setup_platform\<close>, the function does
  not return \<^verbatim>\<open>False\<close>: an exception that is not a builtin \<^verbatim>\<open>ConnectionError\<close> passes the
  \<^verbatim>\<open>except\<close> clause and leaves the function, and a builtin \<^verbatim>\<open>ConnectionError\<close> is caught
  but the handler raises \<^verbatim>\<open>AttributeError\<close> at \<^verbatim>\<open>error.original\<close>. Nothing is logged, and the
  global and the devices are as before.
\<close>

theorem setup_platform_probe_raises:
  assumes "CONF_TOKEN config = Some t"
    and "replies w (length (sent w)) = Raises e"
  shows "fst (setup_platform Throttle sensor_types config g w) =
           Inl (if e = ConnectionError then AttributeError ''original'' else e)
         \<and> fst (snd (setup_platform Throttle sensor_types config g w)) = g
         \<and> written (snd (snd (setup_platform Throttle sensor_types config g w))) = written w"
proof -
  let ?api = "init_Aria2cHomeassistant (CONF_HOST config) (CONF_PORT config) (CONF_TOKEN config)"
  have t: "token ?api = Some t"
    using assms(1) by (simp add: init_Aria2cHomeassistant_def)
  show ?thesis
    by (simp add: setup_platform_def Let_def getVer_raises[OF t assms(2)] getattr_original_def)
qed

theorem setup_platform_probe_raises_witness:
  "fst (setup_platform (\<lambda>seconds f. f) (PDict (SENSOR_TYPES (PStr ''Tasks''))) example_config
          \<lparr>THROTTLED_REFRESH = None, devices = []\<rparr>
          (start_world (\<lambda>n. Raises (RequestException ''ConnectionError''))))
     = Inl (RequestException ''ConnectionError'') \<and>
   devices (fst (snd (setup_platform (\<lambda>seconds f. f) (PDict (SENSOR_TYPES (PStr ''Tasks''))) example_config
          \<lparr>THROTTLED_REFRESH = None, devices = []\<rparr>
          (start_world (\<lambda>n. Raises (RequestException ''ConnectionError'')))))) = [] \<and>
   written (snd (snd (setup_platform (\<lambda>seconds f. f) (PDict (SENSOR_TYPES (PStr ''Tasks''))) example_config
          \<lparr>THROTTLED_REFRESH = None, devices = []\<rparr>
          (start_world (\<lambda>n. Raises (RequestException ''ConnectionError'')))))) = []"
proof -
  let ?w = "start_world (\<lambda>n. Raises (RequestException ''ConnectionError''))"
  have h1: "CONF_TOKEN example_config = Some ''secret''"
    by (simp add: example_config_def)
  have h2: "replies ?w (length (sent ?w)) = Raises (RequestException ''ConnectionError'')"
    by (simp add: start_world_def)
  have w: "written ?w = []"
    by (simp add: start_world_def)
  show ?thesis
    using setup_platform_probe_raises[OF h1 h2, of "\<lambda>seconds f. f" "PDict (SENSOR_TYPES (PStr ''Tasks''))"
        "\<lparr>THROTTLED_REFRESH = None, devices = []\<rparr>"]
    by (simp add: w)
qed

text \<open>
  When the failing call is the refresh and the metric call succeeds, the state does change
  (here the throttled callable lets the call through).
\<close>

lemma update_after_failed_refresh_example:
  "private_state (fst (snd (update (Some (getVer example_api)) (example_sensor ''active'' (PInt 5))
     (start_world (\<lambda>n. if n = 0
        then Body (PDict [(''error'', PDict [(''code'', PInt 1), (''message'', PStr ''busy'')])])
        else Body (PDict [(''result'', PDict [(''numActive'', PStr ''3'')])])))))) = PInt 3"
  by (simp add: update_def refresh_aria2c_data_def example_sensor_def getActive_def getVer_def post_def
      example_api_def init_Aria2cHomeassistant_def genPayload_def requests_post_def
      start_world_def response_json_def defaultErrorHandler_def Let_def result_field_def
      nat_literal_def is_digit_def nat_of_digits_def digit_val_def max_str_digits_def)

subsection \<open>Rounding to doubles\<close>

lemma two_powi_pos: "0 < (2::rat) powi k"
  by simp

lemma ilog2_bounds:
  assumes "0 < x"
  shows "2 powi ilog2 x \<le> x \<and> x < 2 powi (ilog2 x + 1)"
proof -
  obtain p q where pq: "quotient_of x = (p, q)"
    by (cases "quotient_of x")
  have q: "0 < q"
    using pq by (rule quotient_of_denom_pos)
  have x: "x = of_int p / of_int q"
    using pq by (rule quotient_of_div)
  have p: "0 < p"
    using assms q x by (simp add: zero_less_divide_iff)
  let ?bp = "bitlen p" and ?bq = "bitlen q"
  have bp1: "1 \<le> ?bp" and bq1: "1 \<le> ?bq"
    using p q by (simp_all add: bitlen_alt_def)
  have plo: "(2::rat) powi (?bp - 1) \<le> of_int p"
  proof -
    have "(2::int) ^ nat (?bp - 1) \<le> p" using bitlen_bounds[OF p] by simp
    then have "(of_int ((2::int) ^ nat (?bp - 1)) :: rat) \<le> of_int p" by (simp only: of_int_le_iff)
    then show ?thesis using bp1 by (simp add: power_int_def)
  qed
  have phi: "of_int p < (2::rat) powi ?bp"
  proof -
    have "p < (2::int) ^ nat ?bp" using bitlen_bounds[OF p] by simp
    then have "(of_int p :: rat) < of_int ((2::int) ^ nat ?bp)" by (simp only: of_int_less_iff)
    then show ?thesis using bp1 by (simp add: power_int_def)
  qed
  have qlo: "(2::rat) powi (?bq - 1) \<le> of_int q"
  proof -
    have "(2::int) ^ nat (?bq - 1) \<le> q" using bitlen_bounds[OF q] by simp
    then have "(of_int ((2::int) ^ nat (?bq - 1)) :: rat) \<le> of_int q" by (simp only: of_int_le_iff)
    then show ?thesis using bq1 by (simp add: power_int_def)
  qed
  have qhi: "of_int q < (2::rat) powi ?bq"
  proof -
    have "q < (2::int) ^ nat ?bq" using bitlen_bounds[OF q] by simp
    then have "(of_int q :: rat) < of_int ((2::int) ^ nat ?bq)" by (simp only: of_int_less_iff)
    then show ?thesis using bq1 by (simp add: power_int_def)
  qed
  have qpos: "(0::rat) < of_int q" using q by simp
  have ppos: "(0::rat) < of_int p" using p by simp
  let ?d = "?bp - ?bq"
  have up: "x < 2 powi (?d + 1)"
  proof -
    have "2 powi (?d + 1) * of_int q \<ge> 2 powi (?d + 1) * (2::rat) powi (?bq - 1)"
      using qlo by (intro mult_left_mono) simp_all
    also have "2 powi (?d + 1) * (2::rat) powi (?bq - 1) = 2 powi ?bp"
      by (simp flip: power_int_add)
    finally have "of_int p < 2 powi (?d + 1) * (of_int q :: rat)"
      using phi by simp
    then show ?thesis
      using qpos by (simp add: x pos_divide_less_eq)
  qed
  have lo: "2 powi (?d - 1) \<le> x"
  proof -
    have "2 powi (?d - 1) * of_int q \<le> 2 powi (?d - 1) * (2::rat) powi ?bq"
      using qhi by (intro mult_left_mono) simp_all
    also have "2 powi (?d - 1) * (2::rat) powi ?bq = 2 powi (?bp - 1)"
      by (simp flip: power_int_add)
    finally have "2 powi (?d - 1) * (of_int q :: rat) \<le> of_int p"
      using plo by simp
    then show ?thesis
      using qpos by (simp add: x pos_le_divide_eq)
  qed
  show ?thesis
  proof (cases "2 powi ?d \<le> x")
    case True
    then have "ilog2 x = ?d" by (simp add: ilog2_def pq)
    with True up show ?thesis by simp
  next
    case False
    then have "ilog2 x = ?d - 1" by (simp add: ilog2_def pq)
    with False lo show ?thesis by simp
  qed
qed

lemma ilog2_unique:
  assumes "2 powi a \<le> x" and "x < 2 powi (a + 1)"
  shows "ilog2 x = a"
proof -
  have x: "0 < x"
    using assms(1) two_powi_pos[of a] by linarith
  note b = ilog2_bounds[OF x]
  have 1: "a < ilog2 x + 1"
  proof (rule ccontr)
    assume "\<not> a < ilog2 x + 1"
    then have "ilog2 x + 1 \<le> a" by simp
    then have "(2::rat) powi (ilog2 x + 1) \<le> 2 powi a"
      by (rule power_int_increasing) simp
    with assms(1) b show False by linarith
  qed
  have 2: "ilog2 x < a + 1"
  proof (rule ccontr)
    assume "\<not> ilog2 x < a + 1"
    then have "a + 1 \<le> ilog2 x" by simp
    then have "(2::rat) powi (a + 1) \<le> 2 powi ilog2 x"
      by (rule power_int_increasing) simp
    with assms(2) b show False by linarith
  qed
  from 1 2 show ?thesis by simp
qed

lemma ilog2_scale:
  assumes "0 < x"
  shows "ilog2 (x * 2 powi k) = ilog2 x + k"
proof (rule ilog2_unique)
  note b = ilog2_bounds[OF assms]
  have "2 powi (ilog2 x + k) = 2 powi ilog2 x * (2::rat) powi k"
    by (simp add: power_int_add)
  also have "\<dots> \<le> x * 2 powi k"
    using b by (intro mult_right_mono) simp_all
  finally show "2 powi (ilog2 x + k) \<le> x * 2 powi k" .
  have "x * 2 powi k < 2 powi (ilog2 x + 1) * (2::rat) powi k"
    using b by (intro mult_strict_right_mono) simp_all
  also have "\<dots> = 2 powi (ilog2 x + k + 1)"
    by (simp flip: power_int_add add: ac_simps)
  finally show "x * 2 powi k < 2 powi (ilog2 x + k + 1)" .
qed

lemma round_half_even_of_int: "round_half_even (of_int n) = n"
  by (simp add: round_half_even_def)

lemma round_half_even_le:
  assumes "x \<le> of_int N"
  shows "round_half_even x \<le> N"
proof -
  have f: "\<lfloor>x\<rfloor> \<le> N" using assms by (simp add: floor_le_iff)
  show ?thesis
  proof (cases "\<lfloor>x\<rfloor> = N")
    case True
    then have "of_int N \<le> x" by (metis of_int_floor_le)
    with assms have "x = of_int N" by simp
    then show ?thesis by (simp add: round_half_even_of_int)
  next
    case False
    with f have "\<lfloor>x\<rfloor> + 1 \<le> N" by simp
    then show ?thesis using f by (simp add: round_half_even_def Let_def)
  qed
qed

lemma round_half_even_ge:
  assumes "of_int N \<le> x"
  shows "N \<le> round_half_even x"
proof -
  have "N \<le> \<lfloor>x\<rfloor>" using assms by (simp add: le_floor_iff)
  then show ?thesis by (simp add: round_half_even_def Let_def)
qed

lemma nearest_double_pos:
  assumes "0 < x"
  shows "nearest_double x =
     of_int (round_half_even (x / 2 powi (max (ilog2 x - 52) (- 1074)))) * 2 powi (max (ilog2 x - 52) (- 1074))"
  using assms by (simp add: nearest_double_def Let_def)

lemma nearest_double_nonneg:
  assumes "0 \<le> x"
  shows "0 \<le> nearest_double x"
proof (cases "x = 0")
  case True
  then show ?thesis by (simp add: nearest_double_def)
next
  case False
  with assms have x: "0 < x" by simp
  let ?e = "max (ilog2 x - 52) (- 1074)"
  have "of_int 0 \<le> x / 2 powi ?e" using x by simp
  then have "0 \<le> round_half_even (x / 2 powi ?e)" by (rule round_half_even_ge)
  then show ?thesis by (simp add: nearest_double_pos[OF x])
qed

lemma powi_nat: "0 \<le> k \<Longrightarrow> (2::rat) powi k = of_int (2 ^ nat k)"
  by (simp add: power_int_def)

lemma nearest_double_representable:
  assumes "0 < n" and "n < 2 ^ 53" and "- 1074 \<le> k"
  shows "nearest_double (of_int n * 2 powi k) = of_int n * 2 powi k"
proof -
  let ?x = "of_int n * (2::rat) powi k"
  have x: "0 < ?x" using assms(1) by simp
  have "of_int n < (of_int (2 ^ 53) :: rat)" using assms(2) by (simp only: of_int_less_iff)
  then have "?x < 2 ^ 53 * 2 powi k"
    by (intro mult_strict_right_mono) simp_all
  also have "\<dots> = 2 powi (53 + k)"
    by (simp add: power_int_add)
  finally have "2 powi ilog2 ?x < (2::rat) powi (53 + k)"
    using ilog2_bounds[OF x] by linarith
  then have "ilog2 ?x < 53 + k"
  proof -
    assume a: "2 powi ilog2 ?x < (2::rat) powi (53 + k)"
    show ?thesis
    proof (rule ccontr)
      assume "\<not> ilog2 ?x < 53 + k"
      then have "53 + k \<le> ilog2 ?x" by simp
      then have "(2::rat) powi (53 + k) \<le> 2 powi ilog2 ?x"
        by (rule power_int_increasing) simp
      with a show False by simp
    qed
  qed
  then have e: "max (ilog2 ?x - 52) (- 1074) \<le> k" using assms(3) by simp
  let ?e = "max (ilog2 ?x - 52) (- 1074)"
  have "?x / 2 powi ?e = of_int n * 2 powi (k - ?e)"
    by (simp add: power_int_diff)
  also have "\<dots> = of_int (n * 2 ^ nat (k - ?e))"
    using e by (simp add: powi_nat)
  finally have q: "?x / 2 powi ?e = of_int (n * 2 ^ nat (k - ?e))" .
  have "nearest_double ?x = of_int (n * 2 ^ nat (k - ?e)) * 2 powi ?e"
    by (simp only: nearest_double_pos[OF x] q round_half_even_of_int)
  also have "\<dots> = ?x / 2 powi ?e * 2 powi ?e"
    by (simp only: q)
  also have "\<dots> = ?x" by simp
  finally show ?thesis .
qed

lemma nearest_double_scale:
  assumes "0 < x" and "- 1074 \<le> ilog2 x - 52" and "- 1074 \<le> ilog2 x - 52 + k"
  shows "nearest_double (x * 2 powi k) = nearest_double x * 2 powi k"
proof -
  have xk: "0 < x * 2 powi k" using assms(1) by simp
  have e1: "max (ilog2 x - 52) (- 1074) = ilog2 x - 52" using assms(2) by simp
  have e2: "max (ilog2 (x * 2 powi k) - 52) (- 1074) = ilog2 x - 52 + k"
    using assms(3) by (simp add: ilog2_scale[OF assms(1)])
  have q: "x * 2 powi k / 2 powi (ilog2 x - 52 + k) = x / 2 powi (ilog2 x - 52)"
    by (simp add: power_int_add)
  show ?thesis
    by (simp only: nearest_double_pos[OF xk] nearest_double_pos[OF assms(1)] e1 e2 q)
       (simp add: power_int_add)
qed

lemma nearest_double_le_power:
  assumes "0 < y" and "y < 2 ^ K"
  shows "nearest_double y \<le> 2 ^ K"
proof -
  let ?e = "max (ilog2 y - 52) (- 1074)"
  have "2 powi ilog2 y < (2::rat) powi (int K)"
    using ilog2_bounds[OF assms(1)] assms(2) by simp
  then have "ilog2 y < int K"
  proof -
    assume a: "2 powi ilog2 y < (2::rat) powi (int K)"
    show ?thesis
    proof (rule ccontr)
      assume "\<not> ilog2 y < int K"
      then have "int K \<le> ilog2 y" by simp
      then have "(2::rat) powi (int K) \<le> 2 powi ilog2 y"
        by (rule power_int_increasing) simp
      with a show False by simp
    qed
  qed
  then have e: "?e \<le> int K" by simp
  have "y / 2 powi ?e \<le> 2 ^ K / 2 powi ?e"
    using assms(2) by (intro divide_right_mono) simp_all
  also have "(2::rat) ^ K / 2 powi ?e = 2 powi (int K - ?e)"
    by (simp add: power_int_diff)
  also have "\<dots> = of_int (2 ^ nat (int K - ?e))"
    using e by (simp add: powi_nat)
  finally have "round_half_even (y / 2 powi ?e) \<le> 2 ^ nat (int K - ?e)"
    by (rule round_half_even_le)
  then have "(of_int (round_half_even (y / 2 powi ?e)) :: rat) \<le> of_int (2 ^ nat (int K - ?e))"
    by (simp only: of_int_le_iff)
  then have "of_int (round_half_even (y / 2 powi ?e)) * 2 powi ?e
               \<le> (of_int (2 ^ nat (int K - ?e)) :: rat) * 2 powi ?e"
    by (intro mult_right_mono) simp_all
  also have "(of_int (2 ^ nat (int K - ?e)) :: rat) = 2 powi (int K - ?e)"
    using e by (simp add: powi_nat)
  also have "2 powi (int K - ?e) * (2::rat) powi ?e = 2 ^ K"
    by (simp flip: power_int_add)
  finally show ?thesis
    by (simp only: nearest_double_pos[OF assms(1)])
qed

lemma powi_split: "(2::rat) powi (a + b) = 2 powi a * 2 powi b"
  by (simp add: power_int_add)

lemma max_double_ge: "(2::rat) ^ 1023 \<le> max_double"
  by (simp add: max_double_def)

lemma nearest_double_0: "nearest_double 0 = 0"
  by (simp add: nearest_double_def)

lemma to_double_small:
  assumes "0 \<le> y" and "y < 2 ^ 1023"
  shows "to_double y = Some (nearest_double y)"
proof (cases "y = 0")
  case True
  then show ?thesis by (simp add: to_double_def nearest_double_0 max_double_def)
next
  case False
  with assms have y: "0 < y" by simp
  have "nearest_double y \<le> 2 ^ 1023"
    using y assms(2) by (rule nearest_double_le_power)
  then have "\<bar>nearest_double y\<bar> \<le> max_double"
    using nearest_double_nonneg[OF assms(1)] max_double_ge by linarith
  then show ?thesis by (simp add: to_double_def Let_def)
qed

lemma nearest_double_significand:
  assumes "0 < x" and "- 1074 \<le> ilog2 x - 52"
  shows "\<exists>m. nearest_double x = of_int m * 2 powi (ilog2 x - 52) \<and> 2 ^ 52 \<le> m \<and> m \<le> 2 ^ 53"
proof -
  let ?e = "ilog2 x - 52"
  have e: "max ?e (- 1074) = ?e" using assms(2) by simp
  note b = ilog2_bounds[OF assms(1)]
  have "2 powi 52 * (2::rat) powi ?e = 2 powi (52 + ?e)"
    by (simp only: powi_split)
  also have "52 + ?e = ilog2 x" by simp
  finally have "2 powi 52 * (2::rat) powi ?e \<le> x" using b by simp
  then have "(2::rat) powi 52 \<le> x / 2 powi ?e"
    by (simp only: pos_le_divide_eq[OF two_powi_pos])
  then have lo: "(of_int (2 ^ 52) :: rat) \<le> x / 2 powi ?e"
    by simp
  have "2 powi 53 * (2::rat) powi ?e = 2 powi (53 + ?e)"
    by (simp only: powi_split)
  also have "53 + ?e = ilog2 x + 1" by simp
  finally have "x \<le> 2 powi 53 * (2::rat) powi ?e" using b by simp
  then have "x / 2 powi ?e \<le> (2::rat) powi 53"
    by (simp only: pos_divide_le_eq[OF two_powi_pos])
  then have hi: "x / 2 powi ?e \<le> (of_int (2 ^ 53) :: rat)"
    by simp
  have "2 ^ 52 \<le> round_half_even (x / 2 powi ?e)"
    using lo by (rule round_half_even_ge)
  moreover have "round_half_even (x / 2 powi ?e) \<le> 2 ^ 53"
    using hi by (rule round_half_even_le)
  moreover have "nearest_double x = of_int (round_half_even (x / 2 powi ?e)) * 2 powi ?e"
    by (simp only: nearest_double_pos[OF assms(1)] e)
  ultimately show ?thesis by blast
qed

lemma nearest_double_halved:
  assumes "0 < x" and "- 1074 \<le> ilog2 x - 52 - int j"
  shows "nearest_double (nearest_double x / 2 ^ j) = nearest_double x / 2 ^ j"
proof -
  have e: "- 1074 \<le> ilog2 x - 52" using assms(2) by simp
  obtain m where m: "nearest_double x = of_int m * 2 powi (ilog2 x - 52)"
      "2 ^ 52 \<le> m" "m \<le> 2 ^ 53"
    using nearest_double_significand[OF assms(1) e] by blast
  have d: "of_int m * 2 powi (ilog2 x - 52) / 2 ^ j = of_int m * (2::rat) powi (ilog2 x - 52 - int j)"
    by (simp add: power_int_diff)
  show ?thesis
  proof (cases "m = 2 ^ 53")
    case False
    with m have "0 < m" "m < 2 ^ 53" by simp_all
    then show ?thesis
      unfolding m(1) d using assms(2) by (rule nearest_double_representable)
  next
    case True
    have "of_int m * (2::rat) powi (ilog2 x - 52 - int j)
            = of_int (2 ^ 52) * (2 powi 1 * 2 powi (ilog2 x - 52 - int j))"
      by (simp add: True)
    also have "2 powi 1 * (2::rat) powi (ilog2 x - 52 - int j) = 2 powi (1 + (ilog2 x - 52 - int j))"
      by (simp only: powi_split)
    also have "1 + (ilog2 x - 52 - int j) = ilog2 x - 52 - int j + 1" by simp
    finally have d': "of_int m * (2::rat) powi (ilog2 x - 52 - int j)
            = of_int (2 ^ 52) * 2 powi (ilog2 x - 52 - int j + 1)" .
    have "- 1074 \<le> ilog2 x - 52 - int j + 1" using assms(2) by simp
    then show ?thesis
      unfolding m(1) d d' by (intro nearest_double_representable) simp_all
  qed
qed

lemma ilog2_of_nat:
  assumes "0 < v"
  shows "0 \<le> ilog2 (of_nat v)"
proof -
  have v: "(0::rat) < of_nat v" using assms by simp
  have "(2::rat) powi 0 \<le> of_nat v" using assms by simp
  then have "(2::rat) powi 0 < 2 powi (ilog2 (of_nat v) + 1)"
    using ilog2_bounds[OF v] by linarith
  then show ?thesis
  proof -
    assume a: "(2::rat) powi 0 < 2 powi (ilog2 (of_nat v) + 1)"
    show ?thesis
    proof (rule ccontr)
      assume "\<not> 0 \<le> ilog2 (of_nat v)"
      then have "ilog2 (of_nat v) + 1 \<le> 0" by simp
      then have "(2::rat) powi (ilog2 (of_nat v) + 1) \<le> 2 powi 0"
        by (rule power_int_increasing) simp
      with a show False by simp
    qed
  qed
qed

text \<open>Two divisions by 1024 are one division by 1048576.\<close>

lemma mb_spd_pos:
  fixes v :: nat
  assumes "0 < v"
  shows "nearest_double (nearest_double (of_nat v) / 2 ^ 10) = nearest_double (of_nat v) / 2 ^ 10"
    and "nearest_double (nearest_double (of_nat v) / 2 ^ 20) = nearest_double (of_nat v) / 2 ^ 20"
    and "nearest_double (of_nat v / 2 ^ 20) = nearest_double (of_nat v) / 2 ^ 20"
proof -
  have v: "(0::rat) < of_nat v" using assms by simp
  have l: "0 \<le> ilog2 (of_nat v)" using assms by (rule ilog2_of_nat)
  have l10: "- 1074 \<le> ilog2 (of_nat v) - 52 - int 10" using l by simp
  have l20: "- 1074 \<le> ilog2 (of_nat v) - 52 - int 20" using l by simp
  show "nearest_double (nearest_double (of_nat v) / 2 ^ 10) = nearest_double (of_nat v) / 2 ^ 10"
    using v l10 by (rule nearest_double_halved)
  show "nearest_double (nearest_double (of_nat v) / 2 ^ 20) = nearest_double (of_nat v) / 2 ^ 20"
    using v l20 by (rule nearest_double_halved)
  have a: "- 1074 \<le> ilog2 (of_nat v) - 52" using l by simp
  have b: "- 1074 \<le> ilog2 (of_nat v) - 52 + (- 20)" using l by simp
  have m: "y * (2::rat) powi (- 20) = y / 2 ^ 20" for y
    by (simp only: power_int_minus divide_inverse power_int_of_nat[symmetric]) simp
  show "nearest_double (of_nat v / 2 ^ 20) = nearest_double (of_nat v) / 2 ^ 20"
    using nearest_double_scale[OF v a b] by (simp only: m)
qed

lemma max_double_lt: "max_double < 2 ^ 1024"
  by (simp add: max_double_def)

lemma to_double_le_max:
  assumes "0 \<le> y" and "y \<le> max_double"
  shows "to_double y = Some (nearest_double y)"
proof (cases "y < 2 ^ 1023")
  case True
  with assms(1) show ?thesis by (rule to_double_small)
next
  case False
  then have lo: "(2::rat) powi 1023 \<le> y" by simp
  have "y < 2 ^ 1024" using assms(2) max_double_lt by (rule le_less_trans)
  then have hi: "y < (2::rat) powi (1023 + 1)" by simp
  have i: "ilog2 y = 1023" using lo hi by (rule ilog2_unique)
  have y: "0 < y" using lo two_powi_pos[of 1023] by linarith
  have n: "nearest_double y = of_int (round_half_even (y / 2 powi 971)) * 2 powi 971"
    by (subst nearest_double_pos[OF y]) (simp add: i)
  have "y / 2 powi 971 \<le> max_double / 2 powi 971"
    using assms(2) by (rule divide_right_mono) simp
  also have "max_double / 2 powi 971 = of_int (2 ^ 53 - 1)"
    by (simp add: max_double_def)
  finally have "round_half_even (y / 2 powi 971) \<le> 2 ^ 53 - 1"
    by (rule round_half_even_le)
  then have "(of_int (round_half_even (y / 2 powi 971)) :: rat) \<le> of_int (2 ^ 53 - 1)"
    by (simp only: of_int_le_iff)
  then have "of_int (round_half_even (y / 2 powi 971)) * 2 powi 971
               \<le> (of_int (2 ^ 53 - 1) :: rat) * 2 powi 971"
    by (rule mult_right_mono) simp
  also have "(of_int (2 ^ 53 - 1) :: rat) * 2 powi 971 = max_double"
    by (simp add: max_double_def)
  finally have "nearest_double y \<le> max_double" by (simp only: n)
  then have "\<bar>nearest_double y\<bar> \<le> max_double"
    using nearest_double_nonneg[OF assms(1)] by simp
  then show ?thesis by (simp add: to_double_def Let_def)
qed

lemma nearest_double_le_max:
  assumes "0 \<le> y" and "y \<le> max_double"
  shows "nearest_double y \<le> max_double"
proof -
  have "to_double y = Some (nearest_double y)" using assms by (rule to_double_le_max)
  then have "\<bar>nearest_double y\<bar> \<le> max_double"
    by (simp add: to_double_def Let_def split: if_splits)
  then show ?thesis by simp
qed

lemma to_double_1024: "to_double 1024 = Some 1024"
proof -
  have "nearest_double (of_int 1024 * 2 powi 0) = of_int 1024 * 2 powi 0"
    by (rule nearest_double_representable) simp_all
  then have n: "nearest_double 1024 = 1024" by simp
  have "(0::rat) \<le> 1024" "(1024::rat) < 2 ^ 1023" by simp_all
  then have "to_double 1024 = Some (nearest_double 1024)" by (rule to_double_small)
  with n show ?thesis by simp
qed

lemma float_truediv_1024:
  assumes "0 \<le> x" and "x \<le> max_double" and "nearest_double (x / 1024) = x / 1024"
  shows "float_truediv_int x 1024 = Inr (x / 1024)"
proof -
  have "0 \<le> x / 1024" using assms(1) by simp
  moreover have "x / 1024 \<le> max_double / 1024" using assms(2) by (rule divide_right_mono) simp
  then have "x / 1024 < 2 ^ 1023" by (rule le_less_trans) (simp add: max_double_def)
  ultimately have "to_double (x / 1024) = Some (nearest_double (x / 1024))"
    by (rule to_double_small)
  then show ?thesis
    by (simp add: float_truediv_int_def to_double_1024 assms(3))
qed

text \<open>The float of a raw speed, and its two divisions.\<close>

lemma mb_spd_chain:
  fixes v :: nat
  assumes "of_nat v \<le> max_double"
  defines "a \<equiv> nearest_double (of_nat v)"
  shows "to_double (of_nat v) = Some a"
    and "float_truediv_int a 1024 = Inr (a / 1024)"
    and "float_truediv_int (a / 1024) 1024 = Inr (nearest_double (of_nat v / 1048576))"
    and "0 \<le> nearest_double (of_nat v / 1048576)"
    and "nearest_double (of_nat v / 1048576) \<le> 2 ^ 1004"
proof -
  have v0: "(0::rat) \<le> of_nat v" by simp
  show td: "to_double (of_nat v) = Some a"
    unfolding a_def using v0 assms(1) by (rule to_double_le_max)
  have a0: "0 \<le> a" unfolding a_def using v0 by (rule nearest_double_nonneg)
  have eqs: "nearest_double (a / 1024) = a / 1024
           \<and> nearest_double (a / 1024 / 1024) = a / 1024 / 1024
           \<and> nearest_double (of_nat v / 1048576) = a / 1024 / 1024"
  proof (cases "v = 0")
    case True
    then show ?thesis by (simp add: a_def nearest_double_0)
  next
    case False
    then have "0 < v" by simp
    from mb_spd_pos[OF this] show ?thesis by (simp add: a_def)
  qed
  have a1: "a \<le> max_double"
    unfolding a_def using v0 assms(1) by (rule nearest_double_le_max)
  show "float_truediv_int a 1024 = Inr (a / 1024)"
    using a0 a1 eqs by (intro float_truediv_1024) simp_all
  have "0 \<le> a / 1024" using a0 by simp
  moreover have "a / 1024 \<le> a" using a0 by simp
  then have "a / 1024 \<le> max_double" using a1 by (rule order_trans)
  moreover have "nearest_double (a / 1024 / 1024) = a / 1024 / 1024" using eqs by simp
  ultimately have "float_truediv_int (a / 1024) 1024 = Inr (a / 1024 / 1024)"
    by (rule float_truediv_1024)
  then show "float_truediv_int (a / 1024) 1024 = Inr (nearest_double (of_nat v / 1048576))"
    using eqs by simp
  show "0 \<le> nearest_double (of_nat v / 1048576)"
    by (rule nearest_double_nonneg) simp
  have "a / 1048576 \<le> max_double / 1048576" using a1 by (rule divide_right_mono) simp
  also have "max_double / 1048576 \<le> 2 ^ 1004" by (simp add: max_double_def)
  finally show "nearest_double (of_nat v / 1048576) \<le> 2 ^ 1004"
    using eqs by simp
qed

lemma py_round_value:
  assumes "0 \<le> m" and "m \<le> 2 ^ 1004"
  shows "py_round m n = Inr (nearest_double (of_int (round_half_even (m * 10 ^ n)) / 10 ^ n))"
proof -
  let ?r = "round_half_even (m * 10 ^ n)"
  let ?y = "(of_int ?r :: rat) / 10 ^ n"
  have "of_int 0 \<le> m * 10 ^ n" using assms(1) by simp
  then have "0 \<le> ?r" by (rule round_half_even_ge)
  then have y0: "0 \<le> ?y" by simp
  have "m * 10 ^ n \<le> 2 ^ 1004 * 10 ^ n"
    using assms(2) by (rule mult_right_mono) simp
  also have "(2::rat) ^ 1004 * 10 ^ n = of_int (2 ^ 1004 * 10 ^ n)" by simp
  finally have "?r \<le> 2 ^ 1004 * 10 ^ n" by (rule round_half_even_le)
  then have "(of_int ?r :: rat) \<le> of_int (2 ^ 1004 * 10 ^ n)" by (simp only: of_int_le_iff)
  then have "?y \<le> of_int (2 ^ 1004 * 10 ^ n) / 10 ^ n"
    by (rule divide_right_mono) simp
  also have "(of_int (2 ^ 1004 * 10 ^ n) :: rat) / 10 ^ n = 2 ^ 1004" by simp
  finally have "?y < 2 ^ 1023" by (rule le_less_trans) simp
  with y0 have "to_double ?y = Some (nearest_double ?y)" by (rule to_double_small)
  then show ?thesis by (simp add: py_round_def)
qed

lemma py_float_raw:
  assumes "of_nat v \<le> max_double" and "raw = PInt (int v) \<or> raw = PStr (digits v)"
  shows "py_float raw = Inr (nearest_double (of_nat v))"
  using assms(2) mb_spd_chain(1)[OF assms(1)] by (auto simp: int_literal_digits)

lemma speed_state_value:
  assumes "of_nat v \<le> max_double" and "raw = PInt (int v) \<or> raw = PStr (digits v)"
  shows "\<exists>r. reported_speed v = Inr r \<and> speed_state raw = Inr (PFloat r)"
proof -
  let ?mb = "nearest_double (of_nat v / 1048576)"
  let ?n = "if ?mb < float_0_1 then 2 else 1 :: nat"
  note c = mb_spd_chain[OF assms(1)]
  have r: "py_round ?mb ?n = Inr (nearest_double (of_int (round_half_even (?mb * 10 ^ ?n)) / 10 ^ ?n))"
    using c(4) c(5) by (rule py_round_value)
  have "speed_state raw = (case py_round ?mb ?n of Inl e \<Rightarrow> Inl e | Inr r \<Rightarrow> Inr (PFloat r))"
    by (simp only: speed_state_def py_float_raw[OF assms] c(2) c(3) sum.case)
  moreover have "reported_speed v = py_round ?mb ?n"
    by (simp only: reported_speed_def Let_def)
  ultimately show ?thesis
    by (simp only: r sum.case) blast
qed

lemma round_half_even_near:
  assumes "of_int n - 1 / 2 < x" and "x < of_int n + 1 / 2"
  shows "round_half_even x = n"
proof (cases "of_int n \<le> x")
  case True
  then have "\<lfloor>x\<rfloor> = n" using assms(2) by (simp add: floor_eq_iff)
  then show ?thesis using assms(2) by (simp add: round_half_even_def Let_def)
next
  case False
  then have "\<lfloor>x\<rfloor> = n - 1" using assms(1) by (simp add: floor_eq_iff)
  then show ?thesis using assms(1) by (simp add: round_half_even_def Let_def)
qed

lemma float_0_1_value: "float_0_1 = 3602879701896397 / 36028797018963968"
proof -
  have i: "ilog2 (1 / 10) = - 4"
    by (rule ilog2_unique) (simp_all add: power_int_minus)
  have r: "round_half_even (1 / 10 / 2 powi (- 56)) = 7205759403792794"
    by (rule round_half_even_near) (simp_all add: power_int_minus)
  have "nearest_double (1 / 10) = of_int (round_half_even (1 / 10 / 2 powi (- 56))) * 2 powi (- 56)"
    by (subst nearest_double_pos) (simp_all add: i)
  also have "\<dots> = 3602879701896397 / 36028797018963968"
    by (simp only: r) (simp add: power_int_minus)
  finally show ?thesis by (simp only: float_0_1_def)
qed

lemma reported_speed_52428: "reported_speed 52428 = Inr (nearest_double (1 / 20))"
proof -
  have "nearest_double (of_int 13107 * 2 powi (- 18)) = of_int 13107 * 2 powi (- 18)"
    by (rule nearest_double_representable) simp_all
  then have mb: "nearest_double (13107 / 262144) = 13107 / 262144"
    by (simp add: power_int_minus)
  have e: "(of_nat 52428 :: rat) / 1048576 = 13107 / 262144" by simp
  have lt: "(13107 / 262144 :: rat) < float_0_1"
    by (simp add: float_0_1_value)
  have r: "round_half_even (13107 / 262144 * 10 ^ 2) = 5"
    by (rule round_half_even_near) simp_all
  have "py_round (13107 / 262144) 2 =
          Inr (nearest_double (of_int (round_half_even (13107 / 262144 * 10 ^ 2)) / 10 ^ 2))"
    by (rule py_round_value) simp_all
  then have "py_round (13107 / 262144) 2 = Inr (nearest_double (1 / 20))"
    by (simp only: r) simp
  then show ?thesis
    by (simp only: reported_speed_def Let_def e mb lt if_True)
qed

lemma reported_speed_2097152: "reported_speed 2097152 = Inr 2"
proof -
  have "nearest_double (of_int 2 * 2 powi 0) = of_int 2 * 2 powi 0"
    by (rule nearest_double_representable) simp_all
  then have two: "nearest_double 2 = 2" by simp
  have nlt: "\<not> (2 :: rat) < float_0_1"
    by (simp add: float_0_1_value)
  have "round_half_even (of_int 20) = 20"
    by (rule round_half_even_of_int)
  then have r: "round_half_even (2 * 10 ^ 1) = 20"
    by simp
  have "py_round 2 1 = Inr (nearest_double (of_int (round_half_even (2 * 10 ^ 1)) / 10 ^ 1))"
    by (rule py_round_value) simp_all
  then have "py_round 2 1 = Inr 2"
    by (simp only: r) (simp add: two)
  moreover have e: "(of_nat 2097152 :: rat) / 1048576 = 2" by simp
  ultimately show ?thesis
    by (simp only: reported_speed_def Let_def e two nlt if_False)
qed

lemma float_0_05_value: "nearest_double (1 / 20) = 3602879701896397 / 72057594037927936"
proof -
  have i: "ilog2 (1 / 20) = - 5"
    by (rule ilog2_unique) (simp_all add: power_int_minus)
  have r: "round_half_even (1 / 20 / 2 powi (- 57)) = 7205759403792794"
    by (rule round_half_even_near) (simp_all add: power_int_minus)
  have "nearest_double (1 / 20) = of_int (round_half_even (1 / 20 / 2 powi (- 57))) * 2 powi (- 57)"
    by (subst nearest_double_pos) (simp_all add: i)
  also have "\<dots> = 3602879701896397 / 72057594037927936"
    by (simp only: r) (simp add: power_int_minus)
  finally show ?thesis .
qed

subsection \<open>Speed sensors\<close>

lemma status_field:
  assumes "token self = Some t"
    and "replies w (length (sent w)) = Body (PDict kvs)"
    and "map_of kvs ''error'' = None"
    and "map_of kvs ''result'' = Some (PDict res)"
    and "map_of res field = Some raw"
  shows "fst (post self (GET_STATUS self) [] (\<lambda>response. result_field response field) None w)
           = Inr raw"
  using post_success[OF genPayload_star_nil[OF assms(1)] assms(2) assms(3)] assms(4,5)
  by (simp add: result_field_def response_json_def)

lemma update_speed_after_getter:
  assumes "refresh_aria2c_data thr w = (Inr (), w1)"
    and "aria2c_client self = Some client"
    and "type self = ''download_speed'' \<and> fst (getDownloadSpeed client w1) = Inr raw
         \<or> type self = ''upload_speed'' \<and> fst (getUpSpeed client w1) = Inr raw"
  shows "fst (update thr self w) = (case speed_state raw of Inl e \<Rightarrow> Inl e | Inr s \<Rightarrow> Inr ())
       \<and> private_state (fst (snd (update thr self w))) =
           (case speed_state raw of Inl e \<Rightarrow> private_state self | Inr s \<Rightarrow> s)"
  using assms(3)
proof (elim disjE conjE)
  assume t: "type self = ''download_speed''" and g: "fst (getDownloadSpeed client w1) = Inr raw"
  then have "getDownloadSpeed client w1 = (Inr raw, snd (getDownloadSpeed client w1))"
    by (simp add: prod_eq_iff)
  then obtain w2 where "getDownloadSpeed client w1 = (Inr raw, w2)" ..
  then show ?thesis
    by (cases "speed_state raw") (simp_all add: update_def assms(1,2) t)
next
  assume t: "type self = ''upload_speed''" and g: "fst (getUpSpeed client w1) = Inr raw"
  then have "getUpSpeed client w1 = (Inr raw, snd (getUpSpeed client w1))"
    by (simp add: prod_eq_iff)
  then obtain w2 where "getUpSpeed client w1 = (Inr raw, w2)" ..
  then show ?thesis
    by (cases "speed_state raw") (simp_all add: update_def assms(1,2) t)
qed

text \<open>
  C1, as amended. For a speed sensor whose metric call succeeds with the raw speed \<open>v\<close>,
  given as an integer or as the string of its decimal digits and not above the largest
  finite double, the update returns and sets the state to the float of the claim's
  formula: \<^verbatim>\<open>round(v/1048576, 2)\<close> when \<^verbatim>\<open>v/1048576 < 0.1\<close>, else \<^verbatim>\<open>round(v/1048576, 1)\<close>.
\<close>

theorem update_speed_state:
  assumes "refresh_aria2c_data thr w = (Inr (), w1)"
    and "aria2c_client self = Some client"
    and "token client = Some t"
    and "type self = ''download_speed'' \<and> field = ''downloadSpeed''
         \<or> type self = ''upload_speed'' \<and> field = ''uploadSpeed''"
    and "replies w1 (length (sent w1)) = Body (PDict kvs)"
    and "map_of kvs ''error'' = None"
    and "map_of kvs ''result'' = Some (PDict res)"
    and "map_of res field = Some raw"
    and "raw = PInt (int v) \<or> raw = PStr (digits v)"
    and "of_nat v \<le> max_double"
  shows "\<exists>r. reported_speed v = Inr r \<and> fst (update thr self w) = Inr ()
             \<and> private_state (fst (snd (update thr self w))) = PFloat r"
proof -
  note f = status_field[OF assms(3,5,6,7,8)]
  have g: "type self = ''download_speed'' \<and> fst (getDownloadSpeed client w1) = Inr raw
         \<or> type self = ''upload_speed'' \<and> fst (getUpSpeed client w1) = Inr raw"
    using assms(4) f by (auto simp: getDownloadSpeed_def getUpSpeed_def)
  obtain r where r: "reported_speed v = Inr r" "speed_state raw = Inr (PFloat r)"
    using speed_state_value[OF assms(10,9)] by blast
  from update_speed_after_getter[OF assms(1,2) g] r show ?thesis by simp
qed

lemma digits_lt10: "n < 10 \<Longrightarrow> digits n = [digit_char n]"
  by (subst digits.simps) simp

lemma digits_ge10: "10 \<le> n \<Longrightarrow> digits n = digits (n div 10) @ [digit_char (n mod 10)]"
  by (subst digits.simps) simp

lemma digits_52428: "digits 52428 = ''52428''"
  by (simp add: digits_ge10 digits_lt10 digit_char_def)

lemma digits_2097152: "digits 2097152 = ''2097152''"
  by (simp add: digits_ge10 digits_lt10 digit_char_def)

text \<open>
  The two examples of C1: the raw download speed 52428 gives the float \<^verbatim>\<open>0.05\<close>, the raw
  upload speed 2097152 gives \<^verbatim>\<open>2.0\<close>.
\<close>

theorem update_speed_state_witness:
  "private_state (fst (snd (update None (example_sensor ''download_speed'' PNone)
      (start_world (\<lambda>n. Body (PDict [(''result'',
          PDict [(''downloadSpeed'', PStr ''52428''), (''uploadSpeed'', PInt 2097152)])]))))))
     = PFloat (nearest_double (1 / 20)) \<and>
   private_state (fst (snd (update None (example_sensor ''upload_speed'' PNone)
      (start_world (\<lambda>n. Body (PDict [(''result'',
          PDict [(''downloadSpeed'', PStr ''52428''), (''uploadSpeed'', PInt 2097152)])]))))))
     = PFloat 2"
proof -
  let ?res = "[(''downloadSpeed'', PStr ''52428''), (''uploadSpeed'', PInt 2097152)]"
  let ?kvs = "[(''result'', PDict ?res)]"
  let ?w = "start_world (\<lambda>n. Body (PDict ?kvs))"
  let ?d = "example_sensor ''download_speed'' PNone"
  let ?u = "example_sensor ''upload_speed'' PNone"
  have h1: "refresh_aria2c_data None ?w = (Inr (), ?w)"
    by (simp add: refresh_aria2c_data_def)
  have h2: "aria2c_client ?d = Some example_api" "aria2c_client ?u = Some example_api"
    by (simp_all add: example_sensor_def)
  have h4: "type ?d = ''download_speed'' \<and> ''downloadSpeed'' = ''downloadSpeed''
         \<or> type ?d = ''upload_speed'' \<and> ''downloadSpeed'' = ''uploadSpeed''"
    by (simp add: example_sensor_def)
  have h4': "type ?u = ''download_speed'' \<and> ''uploadSpeed'' = ''downloadSpeed''
         \<or> type ?u = ''upload_speed'' \<and> ''uploadSpeed'' = ''uploadSpeed''"
    by (simp add: example_sensor_def)
  have h5: "replies ?w (length (sent ?w)) = Body (PDict ?kvs)"
    by (simp add: start_world_def)
  have h6: "map_of ?kvs ''error'' = None" by simp
  have h7: "map_of ?kvs ''result'' = Some (PDict ?res)" by simp
  have h8: "map_of ?res ''downloadSpeed'' = Some (PStr ''52428'')" by simp
  have h8': "map_of ?res ''uploadSpeed'' = Some (PInt 2097152)" by simp
  have h9: "PStr ''52428'' = PInt (int 52428) \<or> PStr ''52428'' = PStr (digits 52428)"
    by (simp add: digits_52428)
  have h9': "PInt 2097152 = PInt (int 2097152) \<or> PInt 2097152 = PStr (digits 2097152)"
    by simp
  have h10: "(of_nat 52428 :: rat) \<le> max_double" "(of_nat 2097152 :: rat) \<le> max_double"
    by (simp_all add: max_double_def)
  from update_speed_state[OF h1 h2(1) token_example_api h4 h5 h6 h7 h8 h9 h10(1)]
  have a: "private_state (fst (snd (update None ?d ?w))) = PFloat (nearest_double (1 / 20))"
    by (simp only: reported_speed_52428) simp
  from update_speed_state[OF h1 h2(2) token_example_api h4' h5 h6 h7 h8' h9' h10(2)]
  have b: "private_state (fst (snd (update None ?u ?w))) = PFloat 2"
    by (simp only: reported_speed_2097152) simp
  from a b show ?thesis by (rule conjI)
qed

lemma to_double_too_large: "to_double (of_int (2 ^ 1024)) = None"
proof -
  have eq: "(of_int (2 ^ 1024) :: rat) = of_int 1 * 2 powi 1024" by simp
  have "nearest_double (of_int 1 * 2 powi 1024) = of_int 1 * 2 powi 1024"
    by (rule nearest_double_representable) simp_all
  then have n: "nearest_double (of_int (2 ^ 1024)) = of_int (2 ^ 1024)"
    by (simp only: eq)
  have big: "\<not> \<bar>of_int (2 ^ 1024) :: rat\<bar> \<le> max_double"
    using max_double_lt by simp
  show ?thesis
    by (simp only: to_double_def Let_def n big if_False)
qed

lemma speed_state_too_large: "speed_state (PInt (2 ^ 1024)) = Inl OverflowError"
  by (simp only: speed_state_def py_float.simps to_double_too_large option.case sum.case)

text \<open>
  C1 as stated fails beyond the doubles: for the raw speed \<open>2 ^ 1024\<close>, sent as a JSON
  integer, \<^verbatim>\<open>float\<close> raises \<^verbatim>\<open>OverflowError\<close> and the update sets no state.
\<close>

theorem update_speed_overflow_counterexample:
  "fst (update None (example_sensor ''download_speed'' PNone)
      (start_world (\<lambda>n. Body (PDict [(''result'', PDict [(''downloadSpeed'', PInt (2 ^ 1024))])]))))
     = Inl OverflowError"
proof -
  let ?res = "[(''downloadSpeed'', PInt (2 ^ 1024))]"
  let ?kvs = "[(''result'', PDict ?res)]"
  let ?w = "start_world (\<lambda>n. Body (PDict ?kvs))"
  let ?d = "example_sensor ''download_speed'' PNone"
  have h1: "refresh_aria2c_data None ?w = (Inr (), ?w)"
    by (simp add: refresh_aria2c_data_def)
  have h2: "aria2c_client ?d = Some example_api"
    by (simp add: example_sensor_def)
  have h5: "replies ?w (length (sent ?w)) = Body (PDict ?kvs)"
    by (simp add: start_world_def)
  have h6: "map_of ?kvs ''error'' = None" by simp
  have h7: "map_of ?kvs ''result'' = Some (PDict ?res)" by simp
  have h8: "map_of ?res ''downloadSpeed'' = Some (PInt (2 ^ 1024))" by simp
  have "fst (getDownloadSpeed example_api ?w) = Inr (PInt (2 ^ 1024))"
    unfolding getDownloadSpeed_def
    by (rule status_field[OF token_example_api h5 h6 h7 h8])
  moreover have "type ?d = ''download_speed''" by (simp add: example_sensor_def)
  ultimately have g: "type ?d = ''download_speed'' \<and> fst (getDownloadSpeed example_api ?w) = Inr (PInt (2 ^ 1024))
         \<or> type ?d = ''upload_speed'' \<and> fst (getUpSpeed example_api ?w) = Inr (PInt (2 ^ 1024))"
    by simp
  from update_speed_after_getter[OF h1 h2 g] show ?thesis
    by (simp only: speed_state_too_large sum.case)
qed

subsection \<open>The throttled refresh\<close>










subsection \<open>Payload and sensor table\<close>

lemma str_add_error: "str_add s v = Inl e \<Longrightarrow> e = TypeError"
  by (cases v) simp_all

lemma SENSOR_TYPES_bound:
  "eval (module_namespace(''Tasks'' \<mapsto> tasks)) SENSOR_TYPES_display = Inr (PDict (SENSOR_TYPES tasks))"
  by (simp add: SENSOR_TYPES_display_def SENSOR_TYPES_def)

text \<open>
  C8. Evaluating the sensor-type table in the module's namespace does not yield a table:
  the name \<^verbatim>\<open>Tasks\<close> in the unit entry of \<^verbatim>\<open>'active'\<close> is unbound, and the display raises
  \<^verbatim>\<open>NameError\<close>.
\<close>

theorem SENSOR_TYPES_NameError:
  "eval module_namespace SENSOR_TYPES_display = Inl (NameError ''Tasks'')"
  by (simp add: SENSOR_TYPES_display_def module_namespace_def)

text \<open>
  C7. With the optional token omitted (\<^verbatim>\<open>token=None\<close>), building the request body fails
  with \<^verbatim>\<open>TypeError\<close>, whatever the method and the optional arguments are.
\<close>

theorem genPayload_no_token:
  "genPayload (init_Aria2cHomeassistant h p None) method uris options cid = Inl TypeError"
  by (cases cid) (simp_all add: genPayload_def init_Aria2cHomeassistant_def)

end
